theory Spec2Isabelle
  imports Complex_Main "HOL-Library.AList" "HOL-Library.Multiset" "HOL-Library.Sublist"
begin

section \<open>The recommendation service of \<^verbatim>\<open>src/mcp_server.py\<close>\<close>

text \<open>
  The development embeds \<^verbatim>\<open>RecommendationService\<close> (lines 463 to 634) together with
  the one method of \<^verbatim>\<open>PurchaseService\<close> it calls. The MongoDB collections are lists of
  documents in natural (insertion) order. Python's unbounded integers are \<^typ>\<open>int\<close>;
  prices and scores, floats in the source, are exact reals here, so that no rounding
  is modelled. The store is taken to be connected.
\<close>

subsection \<open>Documents\<close>

text \<open>
  A product document. \<^verbatim>\<open>create_product\<close> always writes \<^verbatim>\<open>price\<close> and
  \<^verbatim>\<open>stock_quantity\<close>; the three attributes are read with \<^verbatim>\<open>.get\<close> by the
  recommendation code, so a missing key is \<open>None\<close>. The field \<open>p_id\<close> is the key
  \<^verbatim>\<open>'_id'\<close>, held as the string that \<^verbatim>\<open>str(ObjectId)\<close> prints. The remaining keys
  (description, size, collection, brand, timestamps) are never read by this service.
\<close>

record product =
  p_id :: string
  name :: string
  category :: "string option"
  piece_type :: "string option"
  color :: "string option"
  price :: real
  stock_quantity :: int

record purchase =
  user_id :: string
  product_id :: string
  quantity :: int
  purchase_date :: int

record store =
  users_collection :: "string list"
  products_collection :: "product list"
  purchases_collection :: "purchase list"

text \<open>
  What the service returns: a serialised product document, to which the has-history
  path adds the key \<^verbatim>\<open>'recommendation_score'\<close>.
\<close>

record recommendation =
  rec_product :: product
  recommendation_score :: "real option"

text \<open>
  Exceptions. \<open>InvalidArgument\<close> is \<^verbatim>\<open>ValueError("ID do usuario invalido")\<close>;
  \<open>NotFound\<close> is \<^verbatim>\<open>ValueError("Usuario nao encontrado")\<close>, which only
  \<^verbatim>\<open>create_purchase\<close> and the user handlers raise; \<open>InvalidId\<close> is
  \<^verbatim>\<open>bson.errors.InvalidId\<close>, raised by the constructor \<^verbatim>\<open>ObjectId(s)\<close>;
  \<open>OperationFailure\<close> is \<^verbatim>\<open>pymongo.errors.OperationFailure\<close>, raised when the
  server rejects a pipeline.
\<close>

datatype error = InvalidArgument | NotFound | InvalidId | OperationFailure

subsection \<open>The driver: object ids, cursors, slices\<close>

definition is_hex :: "char \<Rightarrow> bool" where
  "is_hex c = (c \<in> set ''0123456789abcdefABCDEF'')"

text \<open>
  \<^verbatim>\<open>ObjectId.is_valid\<close> on a string: 24 hexadecimal digits, the documented form of an
  id. (A string of 24 characters with white space between its digit pairs, which
  \<^verbatim>\<open>bytes.fromhex\<close> parses as well, is outside the model; \<^verbatim>\<open>create_purchase\<close> cannot
  store one as a product id.)
\<close>

definition ObjectId_is_valid :: "string \<Rightarrow> bool" where
  "ObjectId_is_valid s = (length s = 24 \<and> list_all is_hex s)"

definition hex_lower :: "char \<Rightarrow> char" where
  "hex_lower c =
     (if c = CHR ''A'' then CHR ''a'' else if c = CHR ''B'' then CHR ''b''
      else if c = CHR ''C'' then CHR ''c'' else if c = CHR ''D'' then CHR ''d''
      else if c = CHR ''E'' then CHR ''e'' else if c = CHR ''F'' then CHR ''f'' else c)"

text \<open>
  \<^verbatim>\<open>ObjectId(s)\<close>: the twelve bytes the digits denote, written here in the canonical
  lower-case form that \<^verbatim>\<open>str\<close> prints; two strings that differ in case only are
  the same id.
\<close>

definition ObjectId :: "string \<Rightarrow> error + string" where
  "ObjectId s = (if ObjectId_is_valid s then Inr (map hex_lower s) else Inl InvalidId)"

text \<open>
  \<^verbatim>\<open>Cursor.limit(n)\<close> of pymongo: a limit of 0 is equivalent to no limit, and a
  negative limit \<open>n\<close> asks for a single batch of at most \<open>|n|\<close> documents.
\<close>

definition cursor_limit :: "int \<Rightarrow> 'a list \<Rightarrow> 'a list" where
  "cursor_limit n xs = (if n = 0 then xs else take (nat \<bar>n\<bar>) xs)"

text \<open>The Python slice \<^verbatim>\<open>xs[:n]\<close>; a negative \<open>n\<close> counts from the end.\<close>

definition py_slice_to :: "int \<Rightarrow> 'a list \<Rightarrow> 'a list" where
  "py_slice_to n xs =
     (if 0 \<le> n then take (nat n) xs else take (nat (int (length xs) + n)) xs)"

text \<open>\<^verbatim>\<open>find_one({'_id': oid})\<close> on the products collection.\<close>

definition find_one :: "store \<Rightarrow> string \<Rightarrow> product option" where
  "find_one st oid = List.find (\<lambda>p. p_id p = oid) (products_collection st)"

text \<open>\<^verbatim>\<open>serialize_document\<close> turns \<^verbatim>\<open>'_id'\<close> into its string; ids are strings here.\<close>

definition serialize_document :: "product \<Rightarrow> recommendation" where
  "serialize_document p = \<lparr>rec_product = p, recommendation_score = None\<rparr>"

subsection \<open>\<^verbatim>\<open>PurchaseService.get_user_purchases\<close>\<close>

definition get_user_purchases :: "store \<Rightarrow> string \<Rightarrow> error + purchase list" where
  "get_user_purchases st uid =
     (if \<not> ObjectId_is_valid uid then Inl InvalidArgument
      else Inr (sort_key (\<lambda>u. - purchase_date u)
                  (filter (\<lambda>u. user_id u = uid) (purchases_collection st))))"

subsection \<open>\<^verbatim>\<open>_analyze_user_preferences\<close>\<close>

text \<open>
  A tally is a Python dict from strings to integers. Python dicts iterate in insertion
  order and an assignment to an existing key keeps its place, which is what
  \<^const>\<open>AList.update\<close> does on an association list.
\<close>

type_synonym tally = "(string \<times> int) list"

definition tally_get :: "tally \<Rightarrow> string \<Rightarrow> int \<Rightarrow> int" where
  "tally_get t k d = (case map_of t k of None \<Rightarrow> d | Some v \<Rightarrow> v)"

definition tally_add :: "tally \<Rightarrow> string \<Rightarrow> int \<Rightarrow> tally" where
  "tally_add t k q = AList.update k (tally_get t k 0 + q) t"

text \<open>\<^verbatim>\<open>max(d, key=d.get) if d else None\<close>: the first key, in iteration order, of maximal value.\<close>

fun max_key_from :: "string \<times> int \<Rightarrow> tally \<Rightarrow> string" where
  "max_key_from (bk, bv) [] = bk"
| "max_key_from (bk, bv) ((k, v) # t) =
     (if bv < v then max_key_from (k, v) t else max_key_from (bk, bv) t)"

fun max_key :: "tally \<Rightarrow> string option" where
  "max_key [] = None"
| "max_key (kv # t) = Some (max_key_from kv t)"

record preferences =
  preferred_category :: "string option"
  preferred_piece_type :: "string option"
  preferred_color :: "string option"
  average_price :: real
  categories :: tally
  piece_types :: tally
  colors :: tally

text \<open>The four accumulators of the loop over the purchases.\<close>

record tallies =
  t_categories :: tally
  t_piece_types :: tally
  t_colors :: tally
  t_price_range :: "real list"

text \<open>
  \<^verbatim>\<open>product.get(key, '')\<close>, for a key that is missing or holds a string (an attribute
  stored as \<^verbatim>\<open>null\<close> is outside the model).
\<close>

definition get_or_empty :: "string option \<Rightarrow> string" where
  "get_or_empty v = (case v of None \<Rightarrow> [] | Some s \<Rightarrow> s)"

definition tally_purchase :: "tallies \<Rightarrow> purchase \<Rightarrow> product \<Rightarrow> tallies" where
  "tally_purchase a u p =
     \<lparr>t_categories = tally_add (t_categories a) (get_or_empty (category p)) (quantity u),
      t_piece_types = tally_add (t_piece_types a) (get_or_empty (piece_type p)) (quantity u),
      t_colors = tally_add (t_colors a) (get_or_empty (color p)) (quantity u),
      t_price_range = t_price_range a @ [price p]\<rparr>"

fun analyze_loop :: "store \<Rightarrow> purchase list \<Rightarrow> tallies \<Rightarrow> error + tallies" where
  "analyze_loop st [] a = Inr a"
| "analyze_loop st (u # us) a =
     (case ObjectId (product_id u) of
        Inl e \<Rightarrow> Inl e
      | Inr oid \<Rightarrow>
          (case find_one st oid of
             None \<Rightarrow> analyze_loop st us a
           | Some p \<Rightarrow> analyze_loop st us (tally_purchase a u p)))"

definition analyze_user_preferences :: "store \<Rightarrow> purchase list \<Rightarrow> error + preferences" where
  "analyze_user_preferences st purchases =
     (case analyze_loop st purchases
             \<lparr>t_categories = [], t_piece_types = [], t_colors = [], t_price_range = []\<rparr> of
        Inl e \<Rightarrow> Inl e
      | Inr a \<Rightarrow>
          Inr \<lparr>preferred_category = max_key (t_categories a),
               preferred_piece_type = max_key (t_piece_types a),
               preferred_color = max_key (t_colors a),
               average_price =
                 (if t_price_range a = [] then 0
                  else sum_list (t_price_range a) / real (length (t_price_range a))),
               categories = t_categories a,
               piece_types = t_piece_types a,
               colors = t_colors a\<rparr>)"

subsection \<open>\<^verbatim>\<open>_calculate_recommendation_score\<close>\<close>

text \<open>The running \<^verbatim>\<open>score\<close> variable, one statement after the other.\<close>

definition calculate_recommendation_score :: "product \<Rightarrow> preferences \<Rightarrow> real" where
  "calculate_recommendation_score p prefs =
     (let score = 0;
          score = (if category p = preferred_category prefs then score + 3 else score);
          score = (if piece_type p = preferred_piece_type prefs then score + 2 else score);
          score = (if color p = preferred_color prefs then score + 3 / 2 else score);
          score = (if 0 < average_price prefs
                   then (let price_diff = \<bar>price p - average_price prefs\<bar>;
                             price_score = max 0 (1 - price_diff / average_price prefs)
                         in score + price_score)
                   else score)
      in score)"

subsection \<open>\<^verbatim>\<open>_get_recommendations_by_preferences\<close>\<close>

text \<open>Truth value of \<^verbatim>\<open>preferences['preferred_category']\<close>: neither \<^verbatim>\<open>None\<close> nor empty.\<close>

definition truthy :: "string option \<Rightarrow> bool" where
  "truthy v = (case v of None \<Rightarrow> False | Some s \<Rightarrow> s \<noteq> [])"

text \<open>The list comprehension \<^verbatim>\<open>[ObjectId(pid) for pid in purchased_product_ids]\<close>.\<close>

fun object_ids :: "string list \<Rightarrow> error + string list" where
  "object_ids [] = Inr []"
| "object_ids (s # ss) =
     (case ObjectId s of
        Inl e \<Rightarrow> Inl e
      | Inr oid \<Rightarrow> (case object_ids ss of Inl e \<Rightarrow> Inl e | Inr oids \<Rightarrow> Inr (oid # oids)))"

text \<open>
  A strategy's query: the strategy's own condition, \<^verbatim>\<open>'$nin'\<close> on the purchased ids
  and \<^verbatim>\<open>stock_quantity > 0\<close>, cut by the cursor's limit.
\<close>

definition find_candidates ::
  "store \<Rightarrow> (product \<Rightarrow> bool) \<Rightarrow> string list \<Rightarrow> int \<Rightarrow> error + product list" where
  "find_candidates st cond purchased_product_ids n =
     (case object_ids purchased_product_ids of
        Inl e \<Rightarrow> Inl e
      | Inr nin \<Rightarrow>
          Inr (cursor_limit n
                 (filter (\<lambda>p. cond p \<and> p_id p \<notin> set nin \<and> 0 < stock_quantity p)
                    (products_collection st))))"

text \<open>
  The three strategies. Each returns the products it fetches, given the list
  \<^verbatim>\<open>recommendations\<close> built so far; a strategy that is skipped fetches nothing.
\<close>

definition strategy_category ::
  "store \<Rightarrow> preferences \<Rightarrow> string list \<Rightarrow> int \<Rightarrow> error + product list" where
  "strategy_category st prefs purchased_product_ids limit =
     (if truthy (preferred_category prefs)
      then find_candidates st (\<lambda>p. category p = preferred_category prefs)
             purchased_product_ids (limit div 3)
      else Inr [])"

definition strategy_piece_type ::
  "store \<Rightarrow> preferences \<Rightarrow> string list \<Rightarrow> int \<Rightarrow> product list \<Rightarrow> error + product list" where
  "strategy_piece_type st prefs purchased_product_ids limit recommendations =
     (if truthy (preferred_piece_type prefs) \<and> int (length recommendations) < limit
      then (let remaining = limit - int (length recommendations)
            in find_candidates st (\<lambda>p. piece_type p = preferred_piece_type prefs)
                 purchased_product_ids (remaining div 2))
      else Inr [])"

definition strategy_price ::
  "store \<Rightarrow> preferences \<Rightarrow> string list \<Rightarrow> int \<Rightarrow> product list \<Rightarrow> error + product list" where
  "strategy_price st prefs purchased_product_ids limit recommendations =
     (if 0 < average_price prefs \<and> int (length recommendations) < limit
      then (let remaining = limit - int (length recommendations);
                price_tolerance = average_price prefs * (3 / 10)
            in find_candidates st
                 (\<lambda>p. average_price prefs - price_tolerance \<le> price p
                     \<and> price p \<le> average_price prefs + price_tolerance)
                 purchased_product_ids remaining)
      else Inr [])"

definition generate_candidates ::
  "store \<Rightarrow> preferences \<Rightarrow> purchase list \<Rightarrow> int \<Rightarrow> error + product list" where
  "generate_candidates st prefs user_purchases limit =
     (let purchased_product_ids = map product_id user_purchases
      in case strategy_category st prefs purchased_product_ids limit of
           Inl e \<Rightarrow> Inl e
         | Inr products1 \<Rightarrow>
             (case strategy_piece_type st prefs purchased_product_ids limit products1 of
                Inl e \<Rightarrow> Inl e
              | Inr products2 \<Rightarrow>
                  (case strategy_price st prefs purchased_product_ids limit
                          (products1 @ products2) of
                     Inl e \<Rightarrow> Inl e
                   | Inr products3 \<Rightarrow> Inr (products1 @ products2 @ products3))))"

text \<open>The loop that removes duplicates and scores what it keeps.\<close>

definition scored :: "preferences \<Rightarrow> product \<Rightarrow> recommendation" where
  "scored prefs p =
     \<lparr>rec_product = p, recommendation_score = Some (calculate_recommendation_score p prefs)\<rparr>"

fun unique_loop ::
  "preferences \<Rightarrow> product list \<Rightarrow> recommendation list \<Rightarrow> string set \<Rightarrow> recommendation list" where
  "unique_loop prefs [] unique_recommendations seen_ids = unique_recommendations"
| "unique_loop prefs (p # ps) unique_recommendations seen_ids =
     (if p_id p \<notin> seen_ids
      then unique_loop prefs ps (unique_recommendations @ [scored prefs p])
             (insert (p_id p) seen_ids)
      else unique_loop prefs ps unique_recommendations seen_ids)"

text \<open>The sort key \<^verbatim>\<open>x.get('recommendation_score', 0)\<close>.\<close>

definition score_key :: "recommendation \<Rightarrow> real" where
  "score_key r = (case recommendation_score r of None \<Rightarrow> 0 | Some s \<Rightarrow> s)"

text \<open>
  \<^verbatim>\<open>list.sort(key=..., reverse=True)\<close> is stable: elements of equal key keep their
  order. That is the stable ascending sort on the negated key.
\<close>

definition sort_by_score :: "recommendation list \<Rightarrow> recommendation list" where
  "sort_by_score rs = sort_key (\<lambda>r. - score_key r) rs"

definition get_recommendations_by_preferences ::
  "store \<Rightarrow> preferences \<Rightarrow> purchase list \<Rightarrow> int \<Rightarrow> error + recommendation list" where
  "get_recommendations_by_preferences st prefs user_purchases limit =
     (case generate_candidates st prefs user_purchases limit of
        Inl e \<Rightarrow> Inl e
      | Inr recommendations \<Rightarrow>
          Inr (py_slice_to limit (sort_by_score (unique_loop prefs recommendations [] {}))))"

subsection \<open>\<^verbatim>\<open>_get_popular_products\<close>\<close>

text \<open>
  The \<^verbatim>\<open>$group\<close> stage: one group per \<^verbatim>\<open>product_id\<close> with the sum of the
  quantities (the count \<^verbatim>\<open>total_sales\<close> is computed by the pipeline and never read).
  Groups are listed in order of first occurrence.
\<close>

fun group_quantities :: "purchase list \<Rightarrow> tally \<Rightarrow> tally" where
  "group_quantities [] g = g"
| "group_quantities (u # us) g = group_quantities us (tally_add g (product_id u) (quantity u))"

text \<open>
  The pipeline \<^verbatim>\<open>$group\<close>, \<^verbatim>\<open>$sort\<close> by \<^verbatim>\<open>total_quantity\<close> descending,
  \<^verbatim>\<open>$limit\<close>. The server rejects a \<^verbatim>\<open>$limit\<close> that is not positive.
\<close>

definition aggregate_popular :: "store \<Rightarrow> int \<Rightarrow> error + tally" where
  "aggregate_popular st limit =
     (if limit \<le> 0 then Inl OperationFailure
      else Inr (take (nat limit)
                  (sort_key (\<lambda>g. - snd g) (group_quantities (purchases_collection st) []))))"

text \<open>
  The two \<^verbatim>\<open>find\<close> calls ask for no order, and the server promises none; the model
  returns the matching documents in the order of the collection list. What is proved
  of the result in general is stated without its order.
\<close>

definition get_popular_products :: "store \<Rightarrow> int \<Rightarrow> error + recommendation list" where
  "get_popular_products st limit =
     (case aggregate_popular st limit of
        Inl e \<Rightarrow> Inl e
      | Inr popular_product_ids \<Rightarrow>
          if popular_product_ids = []
          then Inr (map serialize_document
                      (cursor_limit limit
                         (filter (\<lambda>p. 0 < stock_quantity p) (products_collection st))))
          else (case object_ids (map fst popular_product_ids) of
                  Inl e \<Rightarrow> Inl e
                | Inr product_ids \<Rightarrow>
                    Inr (map serialize_document
                           (filter (\<lambda>p. p_id p \<in> set product_ids)
                              (products_collection st)))))"

subsection \<open>\<^verbatim>\<open>get_recommendations_for_user\<close>\<close>

definition get_recommendations_for_user ::
  "store \<Rightarrow> string \<Rightarrow> int \<Rightarrow> error + recommendation list" where
  "get_recommendations_for_user st uid limit =
     (if \<not> ObjectId_is_valid uid then Inl InvalidArgument
      else (case get_user_purchases st uid of
              Inl e \<Rightarrow> Inl e
            | Inr user_purchases \<Rightarrow>
                if user_purchases = [] then get_popular_products st limit
                else (case analyze_user_preferences st user_purchases of
                        Inl e \<Rightarrow> Inl e
                      | Inr prefs \<Rightarrow>
                          get_recommendations_by_preferences st prefs user_purchases limit)))"

subsection \<open>\<^verbatim>\<open>MCPUserServer._handle_get_user_recommendations\<close>\<close>

text \<open>
  The handler reads \<^verbatim>\<open>limit\<close> from the arguments (10 when absent) and passes it on. It
  answers with the error text for a \<^verbatim>\<open>ValueError\<close>, with a fixed text for an empty
  list and with the listing otherwise; an exception of another class is not caught.
\<close>

datatype response =
  Erro error | Nenhuma_recomendacao | Recomendacoes "recommendation list" | Uncaught error

definition is_ValueError :: "error \<Rightarrow> bool" where
  "is_ValueError e = (e = InvalidArgument \<or> e = NotFound)"

definition handle_get_user_recommendations :: "store \<Rightarrow> string \<Rightarrow> int option \<Rightarrow> response" where
  "handle_get_user_recommendations st uid limit_arg =
     (let limit = (case limit_arg of None \<Rightarrow> 10 | Some l \<Rightarrow> l)
      in case get_recommendations_for_user st uid limit of
           Inl e \<Rightarrow> if is_ValueError e then Erro e else Uncaught e
         | Inr recommendations \<Rightarrow>
             if recommendations = [] then Nenhuma_recomendacao
             else Recomendacoes recommendations)"

section \<open>The specification's notions\<close>

text \<open>
  The definitions of this section follow the words of the specification, not the code;
  the theorems below compare the code with them.
\<close>

text \<open>The price score of the scoring formula.\<close>

definition spec_price_score :: "product \<Rightarrow> preferences \<Rightarrow> real" where
  "spec_price_score p prefs =
     (if 0 < average_price prefs
      then max 0 (1 - \<bar>price p - average_price prefs\<bar> / average_price prefs)
      else 0)"

text \<open>The purchase lines whose product resolves, each with its product.\<close>

definition spec_resolved :: "store \<Rightarrow> purchase list \<Rightarrow> (purchase \<times> product) list" where
  "spec_resolved st purchases =
     List.map_filter
       (\<lambda>u. map_option (Pair u) (find_one st (map hex_lower (product_id u)))) purchases"

text \<open>
  A preference tally: the cumulative purchased quantity of an attribute value over the
  resolved lines; a value that no resolved line has is not a key.
\<close>

definition spec_tally ::
  "(product \<Rightarrow> string option) \<Rightarrow> (purchase \<times> product) list \<Rightarrow> string \<Rightarrow> int option" where
  "spec_tally key lines k =
     (let hits = filter (\<lambda>(u, p). get_or_empty (key p) = k) lines
      in if hits = [] then None else Some (sum_list (map (\<lambda>(u, p). quantity u) hits)))"

text \<open>The unweighted mean of the unit prices of the resolved lines, 0 if there is none.\<close>

definition spec_average_price :: "(purchase \<times> product) list \<Rightarrow> real" where
  "spec_average_price lines =
     (if lines = [] then 0
      else sum_list (map (\<lambda>(u, p). price p) lines) / real (length lines))"

text \<open>
  Deduplication as the specification words it: of each product id the first occurrence
  is kept, in the order of the candidates.
\<close>

fun spec_first_occurrences :: "product list \<Rightarrow> product list" where
  "spec_first_occurrences [] = []"
| "spec_first_occurrences (p # ps) =
     p # spec_first_occurrences (filter (\<lambda>q. p_id q \<noteq> p_id p) ps)"

text \<open>
  The \<^verbatim>\<open>'_id'\<close> of a stored product is an \<^verbatim>\<open>ObjectId\<close>, so the string held
  for it is the canonical one: parsing it gives it back.
\<close>

definition ids_canonical :: "store \<Rightarrow> bool" where
  "ids_canonical st =
     list_all (\<lambda>p. ObjectId (p_id p) = Inr (p_id p)) (products_collection st)"

text \<open>The total purchased quantity of a product id, summed across all users.\<close>

definition spec_total_quantity :: "purchase list \<Rightarrow> string \<Rightarrow> int" where
  "spec_total_quantity purchases pid =
     sum_list (map quantity (filter (\<lambda>u. product_id u = pid) purchases))"

text \<open>
  The effect of the loop of \<^verbatim>\<open>_analyze_user_preferences\<close> on one tally, as a fold
  over the resolved lines (an auxiliary notion of the proofs).
\<close>

definition tally_lines ::
  "(product \<Rightarrow> string option) \<Rightarrow> (purchase \<times> product) list \<Rightarrow> tally \<Rightarrow> tally" where
  "tally_lines key lines t =
     foldl (\<lambda>t (u, p). tally_add t (get_or_empty (key p)) (quantity u)) t lines"

text \<open>
  What the pipeline of \<^verbatim>\<open>_get_popular_products\<close> returns for a positive limit:
  the first \<open>n\<close> groups by quantity (an auxiliary notion of the proofs).
\<close>

definition top_groups :: "store \<Rightarrow> nat \<Rightarrow> tally" where
  "top_groups st n =
     take n (sort_key (\<lambda>g. - snd g) (group_quantities (purchases_collection st) []))"

section \<open>A sample store\<close>

text \<open>
  Ana bought a blue T-shirt (30, twice), trousers (90, once, the id typed in upper case)
  and a product that has since been deleted; Bia is registered and never bought; Caio
  bought the last five pieces of a shirt that is now out of stock; the fourth id belongs
  to nobody.
\<close>

definition uid_ana :: string where "uid_ana = ''aaaaaaaaaaaaaaaaaaaaaaa1''"
definition uid_bia :: string where "uid_bia = ''aaaaaaaaaaaaaaaaaaaaaaa2''"
definition uid_caio :: string where "uid_caio = ''aaaaaaaaaaaaaaaaaaaaaaa3''"
definition uid_ghost :: string where "uid_ghost = ''aaaaaaaaaaaaaaaaaaaaaaa9''"

definition prod_a :: product where
  "prod_a = \<lparr>p_id = ''bbbbbbbbbbbbbbbbbbbbbbb1'', name = ''Camiseta Azul'',
     category = Some ''Casual'', piece_type = Some ''Camiseta'', color = Some ''Azul'',
     price = 30, stock_quantity = 10\<rparr>"

definition prod_b :: product where
  "prod_b = \<lparr>p_id = ''bbbbbbbbbbbbbbbbbbbbbbb2'', name = ''Calca Preta'',
     category = Some ''Casual'', piece_type = Some ''Calca'', color = Some ''Preto'',
     price = 90, stock_quantity = 5\<rparr>"

definition prod_c :: product where
  "prod_c = \<lparr>p_id = ''bbbbbbbbbbbbbbbbbbbbbbb3'', name = ''Vestido Verde'',
     category = Some ''Casual'', piece_type = Some ''Vestido'', color = Some ''Verde'',
     price = 55, stock_quantity = 3\<rparr>"

definition prod_d :: product where
  "prod_d = \<lparr>p_id = ''bbbbbbbbbbbbbbbbbbbbbbb4'', name = ''Camiseta Social'',
     category = Some ''Formal'', piece_type = Some ''Camiseta'', color = Some ''Azul'',
     price = 60, stock_quantity = 0\<rparr>"

definition prod_e :: product where
  "prod_e = \<lparr>p_id = ''bbbbbbbbbbbbbbbbbbbbbbb5'', name = ''Saia Rosa'',
     category = Some ''Casual'', piece_type = Some ''Saia'', color = Some ''Rosa'',
     price = 200, stock_quantity = 4\<rparr>"

definition prod_f :: product where
  "prod_f = \<lparr>p_id = ''bbbbbbbbbbbbbbbbbbbbbbb6'', name = ''Blusa Azul'',
     category = Some ''Casual'', piece_type = Some ''Blusa'', color = Some ''Azul'',
     price = 45, stock_quantity = 2\<rparr>"

definition prod_g :: product where
  "prod_g = \<lparr>p_id = ''bbbbbbbbbbbbbbbbbbbbbbb7'', name = ''Camiseta Treino'',
     category = Some ''Esportivo'', piece_type = Some ''Camiseta'', color = Some ''Azul'',
     price = 50, stock_quantity = 7\<rparr>"

definition buy :: "string \<Rightarrow> string \<Rightarrow> int \<Rightarrow> int \<Rightarrow> purchase" where
  "buy u p q d = \<lparr>user_id = u, product_id = p, quantity = q, purchase_date = d\<rparr>"

definition shop :: store where
  "shop = \<lparr>users_collection = [uid_ana, uid_bia, uid_caio],
     products_collection = [prod_a, prod_b, prod_c, prod_d, prod_e, prod_f, prod_g],
     purchases_collection =
       [buy uid_ana ''bbbbbbbbbbbbbbbbbbbbbbb1'' 2 100,
        buy uid_ana ''bbbbbbbbbbbbbbbbbbbbbbb0'' 4 150,
        buy uid_ana ''BBBBBBBBBBBBBBBBBBBBBBB2'' 1 200,
        buy uid_caio ''bbbbbbbbbbbbbbbbbbbbbbb4'' 5 300]\<rparr>"

text \<open>Ana's purchase history, latest first, and the profile derived from it.\<close>

definition ana_purchases :: "purchase list" where
  "ana_purchases =
     [buy uid_ana ''BBBBBBBBBBBBBBBBBBBBBBB2'' 1 200,
      buy uid_ana ''bbbbbbbbbbbbbbbbbbbbbbb0'' 4 150,
      buy uid_ana ''bbbbbbbbbbbbbbbbbbbbbbb1'' 2 100]"

definition ana_prefs :: preferences where
  "ana_prefs = \<lparr>preferred_category = Some ''Casual'', preferred_piece_type = Some ''Camiseta'',
     preferred_color = Some ''Azul'', average_price = 60,
     categories = [(''Casual'', 3)], piece_types = [(''Calca'', 1), (''Camiseta'', 2)],
     colors = [(''Preto'', 1), (''Azul'', 2)]\<rparr>"

text \<open>The same shop before anything was ever bought.\<close>

definition cold_shop :: store where
  "cold_shop = shop\<lparr>purchases_collection := []\<rparr>"

lemmas sample_defs =
  uid_ana_def uid_bia_def uid_caio_def uid_ghost_def prod_a_def prod_b_def prod_c_def
  prod_d_def prod_e_def prod_f_def prod_g_def buy_def shop_def ana_purchases_def ana_prefs_def

lemmas driver_defs =
  ObjectId_def ObjectId_is_valid_def is_hex_def hex_lower_def cursor_limit_def
  py_slice_to_def find_one_def serialize_document_def

section \<open>The scoring function\<close>

text \<open>
  Claim C5. The score of a product against a profile is 3 for an equal category, plus 2
  for an equal piece type, plus 1.5 for an equal colour, plus the price score, which
  is \<open>max 0 (1 - |price - average_price| / average_price)\<close> when the average price is
  positive and 0 otherwise. In particular, at an average price of 60 a product of price 55
  that matches in the category only scores \<open>3 + (1 - 5/60)\<close>, which is 3.917 to three
  decimals.
\<close>

theorem score_formula:
  "calculate_recommendation_score p prefs =
       (if category p = preferred_category prefs then 3 else 0)
     + (if piece_type p = preferred_piece_type prefs then 2 else 0)
     + (if color p = preferred_color prefs then 3 / 2 else 0)
     + spec_price_score p prefs
   \<and> (average_price prefs = 60 \<and> category p = preferred_category prefs
        \<and> piece_type p \<noteq> preferred_piece_type prefs \<and> color p \<noteq> preferred_color prefs
        \<and> price p = 55
      \<longrightarrow> calculate_recommendation_score p prefs = 3 + (1 - 5 / 60)
          \<and> \<bar>calculate_recommendation_score p prefs - 3917 / 1000\<bar> < 1 / 1000)"
  by (simp add: calculate_recommendation_score_def spec_price_score_def Let_def)

theorem score_formula_witness:
  "average_price ana_prefs = 60 \<and> category prod_c = preferred_category ana_prefs
   \<and> piece_type prod_c \<noteq> preferred_piece_type ana_prefs
   \<and> color prod_c \<noteq> preferred_color ana_prefs \<and> price prod_c = 55
   \<and> calculate_recommendation_score prod_c ana_prefs = 47 / 12"
  using score_formula [of prod_c ana_prefs]
  by (simp add: ana_prefs_def prod_c_def)

section \<open>The preference profile\<close>

lemma map_of_tally_add:
  "map_of (tally_add t k q) = (map_of t)(k \<mapsto> tally_get t k 0 + q)"
  by (simp add: tally_add_def update_conv')

lemma distinct_tally_add: "distinct (map fst t) \<Longrightarrow> distinct (map fst (tally_add t k q))"
  by (simp add: tally_add_def distinct_update)

lemma ObjectId_valid: "ObjectId_is_valid s \<Longrightarrow> ObjectId s = Inr (map hex_lower s)"
  by (simp add: ObjectId_def)

lemma spec_resolved_Nil: "spec_resolved st [] = []"
  by (simp add: spec_resolved_def map_filter_simps)

lemma spec_resolved_Cons:
  "spec_resolved st (u # us) =
     (case find_one st (map hex_lower (product_id u)) of
        None \<Rightarrow> spec_resolved st us
      | Some p \<Rightarrow> (u, p) # spec_resolved st us)"
  by (simp add: spec_resolved_def map_filter_simps split: option.splits)

lemma tally_lines_Nil: "tally_lines key [] t = t"
  by (simp add: tally_lines_def)

lemma tally_lines_Cons:
  "tally_lines key ((u, p) # lines) t =
     tally_lines key lines (tally_add t (get_or_empty (key p)) (quantity u))"
  by (simp add: tally_lines_def)

lemma distinct_tally_lines:
  "distinct (map fst t) \<Longrightarrow> distinct (map fst (tally_lines key lines t))"
  by (induction lines arbitrary: t)
     (auto simp: tally_lines_Nil tally_lines_Cons distinct_tally_add)

lemma map_of_tally_lines:
  "map_of (tally_lines key lines t) k =
     (let hits = filter (\<lambda>(u, p). get_or_empty (key p) = k) lines
      in if hits = [] then map_of t k
         else Some (tally_get t k 0 + sum_list (map (\<lambda>(u, p). quantity u) hits)))"
proof (induction lines arbitrary: t)
  case Nil
  then show ?case by (simp add: tally_lines_Nil)
next
  case (Cons l lines)
  obtain u p where l: "l = (u, p)" by (cases l)
  show ?case
    unfolding l tally_lines_Cons Cons.IH
    by (simp add: Let_def map_of_tally_add tally_get_def)
qed

lemma map_of_tally_lines_empty: "map_of (tally_lines key lines []) = spec_tally key lines"
  by (rule ext) (simp add: map_of_tally_lines spec_tally_def tally_get_def Let_def)

lemma analyze_loop_lines:
  "list_all (\<lambda>u. ObjectId_is_valid (product_id u)) purchases \<Longrightarrow>
   analyze_loop st purchases a =
     Inr \<lparr>t_categories = tally_lines category (spec_resolved st purchases) (t_categories a),
          t_piece_types = tally_lines piece_type (spec_resolved st purchases) (t_piece_types a),
          t_colors = tally_lines color (spec_resolved st purchases) (t_colors a),
          t_price_range =
            t_price_range a @ map (\<lambda>(u, p). price p) (spec_resolved st purchases)\<rparr>"
proof (induction purchases arbitrary: a)
  case Nil
  then show ?case by (simp add: spec_resolved_Nil tally_lines_Nil)
next
  case (Cons u us)
  then show ?case
    by (simp add: ObjectId_valid spec_resolved_Cons tally_lines_Cons tally_purchase_def
          split: option.splits)
qed

text \<open>
  Claim C7. For a purchase list whose product ids are well-formed, the analysis returns a
  profile whose three tallies hold, for each attribute value, the sum of the quantities
  of the purchase lines whose product resolves and has that value (and no other key);
  a line whose product does not resolve is in neither the tallies nor the price samples;
  the average price is the unweighted mean of the unit prices of the resolved lines, 0
  when none resolves.
\<close>

theorem analyze_tallies_and_average:
  assumes "list_all (\<lambda>u. ObjectId_is_valid (product_id u)) purchases"
  shows "\<exists>prefs. analyze_user_preferences st purchases = Inr prefs
     \<and> map_of (categories prefs) = spec_tally category (spec_resolved st purchases)
     \<and> map_of (piece_types prefs) = spec_tally piece_type (spec_resolved st purchases)
     \<and> map_of (colors prefs) = spec_tally color (spec_resolved st purchases)
     \<and> distinct (map fst (categories prefs)) \<and> distinct (map fst (piece_types prefs))
     \<and> distinct (map fst (colors prefs))
     \<and> average_price prefs = spec_average_price (spec_resolved st purchases)"
  unfolding analyze_user_preferences_def analyze_loop_lines [OF assms]
  by (simp add: map_of_tally_lines_empty distinct_tally_lines spec_average_price_def
        sum_list_def comp_def case_prod_unfold)

theorem analyze_tallies_and_average_witness:
  "list_all (\<lambda>u. ObjectId_is_valid (product_id u)) ana_purchases
   \<and> (\<exists>prefs. analyze_user_preferences shop ana_purchases = Inr prefs
        \<and> map_of (categories prefs) ''Casual'' = Some 3
        \<and> map_of (piece_types prefs) ''Camiseta'' = Some 2
        \<and> map_of (colors prefs) ''Verde'' = None
        \<and> average_price prefs = 60)"
proof -
  have v: "list_all (\<lambda>u. ObjectId_is_valid (product_id u)) ana_purchases"
    by (simp add: sample_defs driver_defs)
  have r: "spec_resolved shop ana_purchases =
    [(buy uid_ana ''BBBBBBBBBBBBBBBBBBBBBBB2'' 1 200, prod_b),
     (buy uid_ana ''bbbbbbbbbbbbbbbbbbbbbbb1'' 2 100, prod_a)]"
    by (simp add: spec_resolved_def map_filter_simps sample_defs driver_defs)
  from analyze_tallies_and_average [OF v, of shop] obtain prefs where
    p: "analyze_user_preferences shop ana_purchases = Inr prefs"
       "map_of (categories prefs) = spec_tally category (spec_resolved shop ana_purchases)"
       "map_of (piece_types prefs) = spec_tally piece_type (spec_resolved shop ana_purchases)"
       "map_of (colors prefs) = spec_tally color (spec_resolved shop ana_purchases)"
       "average_price prefs = spec_average_price (spec_resolved shop ana_purchases)"
    by blast
  have "map_of (categories prefs) ''Casual'' = Some 3"
    unfolding p r by (simp add: spec_tally_def get_or_empty_def sample_defs)
  moreover have "map_of (piece_types prefs) ''Camiseta'' = Some 2"
    unfolding p r by (simp add: spec_tally_def get_or_empty_def sample_defs)
  moreover have "map_of (colors prefs) ''Verde'' = None"
    unfolding p r by (simp add: spec_tally_def get_or_empty_def sample_defs)
  moreover have "average_price prefs = 60"
    unfolding p r by (simp add: spec_average_price_def sample_defs)
  ultimately show ?thesis using v p(1) by blast
qed

section \<open>Candidates, deduplication and ranking\<close>

lemma object_ids_valid:
  "list_all ObjectId_is_valid ss \<Longrightarrow> object_ids ss = Inr (map (map hex_lower) ss)"
  by (induction ss) (auto simp: ObjectId_valid)

lemma object_ids_Inr:
  "object_ids ss = Inr oids \<Longrightarrow> list_all ObjectId_is_valid ss \<and> oids = map (map hex_lower) ss"
  by (induction ss arbitrary: oids) (auto simp: ObjectId_def split: if_splits sum.splits)

lemma object_ids_mem:
  assumes "object_ids ss = Inr oids" and "s \<in> set ss"
  shows "\<exists>oid. ObjectId s = Inr oid \<and> oid \<in> set oids"
  using assms object_ids_Inr [OF assms(1)]
  by (auto simp: ObjectId_def list_all_iff)

lemma set_cursor_limit: "set (cursor_limit n xs) \<subseteq> set xs"
  by (auto simp: cursor_limit_def dest: in_set_takeD)

lemma length_cursor_limit: "n \<noteq> 0 \<Longrightarrow> int (length (cursor_limit n xs)) \<le> \<bar>n\<bar>"
  by (simp add: cursor_limit_def)

lemma find_candidates_sound:
  assumes "find_candidates st cond ids n = Inr ps" and "c \<in> set ps" and "s \<in> set ids"
  shows "c \<in> set (products_collection st) \<and> cond c \<and> 0 < stock_quantity c
         \<and> ObjectId s \<noteq> Inr (p_id c)"
proof -
  from assms(1) obtain nin where nin: "object_ids ids = Inr nin"
    and ps: "ps = cursor_limit n
       (filter (\<lambda>p. cond p \<and> p_id p \<notin> set nin \<and> 0 < stock_quantity p) (products_collection st))"
    by (auto simp: find_candidates_def split: sum.splits)
  from assms(2) ps set_cursor_limit
  have c: "c \<in> set (products_collection st)" "cond c" "p_id c \<notin> set nin" "0 < stock_quantity c"
    by fastforce+
  from object_ids_mem [OF nin assms(3)] c(3) have "ObjectId s \<noteq> Inr (p_id c)" by auto
  with c show ?thesis by simp
qed

lemma find_candidates_length:
  assumes "find_candidates st cond ids n = Inr ps" and "n \<noteq> 0"
  shows "int (length ps) \<le> \<bar>n\<bar>"
  using assms by (auto simp: find_candidates_def length_cursor_limit split: sum.splits)

lemma find_candidates_in_store:
  assumes "find_candidates st cond ids n = Inr ps" and "c \<in> set ps"
  shows "c \<in> set (products_collection st) \<and> 0 < stock_quantity c"
  using assms set_cursor_limit
  by (fastforce simp: find_candidates_def split: sum.splits)

lemma strategy_category_sound:
  assumes "strategy_category st prefs ids limit = Inr ps" and "c \<in> set ps" and "s \<in> set ids"
  shows "ObjectId s \<noteq> Inr (p_id c)"
  using assms find_candidates_sound
  by (fastforce simp: strategy_category_def split: if_splits)

lemma strategy_piece_type_sound:
  assumes "strategy_piece_type st prefs ids limit recs = Inr ps" and "c \<in> set ps" and "s \<in> set ids"
  shows "ObjectId s \<noteq> Inr (p_id c)"
  using assms find_candidates_sound
  by (fastforce simp: strategy_piece_type_def Let_def split: if_splits)

lemma strategy_price_sound:
  assumes "strategy_price st prefs ids limit recs = Inr ps" and "c \<in> set ps" and "s \<in> set ids"
  shows "ObjectId s \<noteq> Inr (p_id c)"
  using assms find_candidates_sound
  by (fastforce simp: strategy_price_def Let_def split: if_splits)

lemma generate_candidates_sound:
  assumes "generate_candidates st prefs ups limit = Inr cands" and "c \<in> set cands" and "u \<in> set ups"
  shows "ObjectId (product_id u) \<noteq> Inr (p_id c)"
proof -
  let ?ids = "map product_id ups"
  from assms(1) obtain p1 p2 p3 where
    s1: "strategy_category st prefs ?ids limit = Inr p1" and
    s2: "strategy_piece_type st prefs ?ids limit p1 = Inr p2" and
    s3: "strategy_price st prefs ?ids limit (p1 @ p2) = Inr p3" and
    cs: "cands = p1 @ p2 @ p3"
    by (auto simp: generate_candidates_def Let_def split: sum.splits)
  have m: "product_id u \<in> set ?ids" using assms(3) by simp
  from assms(2) cs consider "c \<in> set p1" | "c \<in> set p2" | "c \<in> set p3" by auto
  then show ?thesis
  proof cases
    case 1 then show ?thesis using strategy_category_sound [OF s1 _ m] by blast
  next
    case 2 then show ?thesis using strategy_piece_type_sound [OF s2 _ m] by blast
  next
    case 3 then show ?thesis using strategy_price_sound [OF s3 _ m] by blast
  qed
qed

lemma set_first_occurrences: "set (spec_first_occurrences ps) \<subseteq> set ps"
  by (induction ps rule: spec_first_occurrences.induct) auto

lemma distinct_first_occurrences: "distinct (map p_id (spec_first_occurrences ps))"
proof (induction ps rule: spec_first_occurrences.induct)
  case 1
  then show ?case by simp
next
  case (2 p ps)
  have "p_id p \<notin> p_id ` set (spec_first_occurrences (filter (\<lambda>q. p_id q \<noteq> p_id p) ps))"
    using set_first_occurrences [of "filter (\<lambda>q. p_id q \<noteq> p_id p) ps"] by auto
  with 2 show ?case by simp
qed

lemma first_occurrences_find:
  "p \<in> set (spec_first_occurrences ps) \<Longrightarrow> List.find (\<lambda>c. p_id c = p_id p) ps = Some p"
proof (induction ps rule: spec_first_occurrences.induct)
  case 1
  then show ?case by simp
next
  case (2 q ps)
  show ?case
  proof (cases "p = q")
    case True
    then show ?thesis by simp
  next
    case False
    with 2(2) have m: "p \<in> set (spec_first_occurrences (filter (\<lambda>r. p_id r \<noteq> p_id q) ps))"
      by simp
    with set_first_occurrences have "p \<in> set (filter (\<lambda>r. p_id r \<noteq> p_id q) ps)" by blast
    then have ne: "p_id p \<noteq> p_id q" by simp
    have "List.find (\<lambda>c. p_id c = p_id p) (filter (\<lambda>r. p_id r \<noteq> p_id q) ps)
          = List.find (\<lambda>c. p_id c = p_id p) ps"
      using ne by (induction ps) auto
    with 2(1) [OF m] ne show ?thesis by auto
  qed
qed

lemma unique_loop_spec:
  "unique_loop prefs ps acc seen =
     acc @ map (scored prefs) (spec_first_occurrences (filter (\<lambda>p. p_id p \<notin> seen) ps))"
proof (induction ps arbitrary: acc seen)
  case Nil
  then show ?case by simp
next
  case (Cons p ps)
  have "filter (\<lambda>q. p_id q \<noteq> p_id p) (filter (\<lambda>q. p_id q \<notin> seen) ps)
        = filter (\<lambda>q. p_id q \<notin> insert (p_id p) seen) ps"
    by (induction ps) auto
  with Cons show ?case by simp
qed

lemma unique_loop_first_occurrences:
  "unique_loop prefs ps [] {} = map (scored prefs) (spec_first_occurrences ps)"
  by (simp add: unique_loop_spec)

lemma score_nonneg: "0 \<le> calculate_recommendation_score p prefs"
  by (simp add: calculate_recommendation_score_def Let_def)

lemma sorted_by_score: "sorted_wrt (\<lambda>a b. score_key b \<le> score_key a) (sort_by_score rs)"
proof -
  have "sorted (map (\<lambda>r. - score_key r) (sort_by_score rs))"
    unfolding sort_by_score_def by (rule sorted_sort_key)
  then show ?thesis by (simp add: sorted_map sorted_wrt_iff_nth_less)
qed

lemma stable_by_score:
  "filter (\<lambda>r. score_key r = s) (sort_by_score rs) = filter (\<lambda>r. score_key r = s) rs"
proof -
  have "filter (\<lambda>r. - score_key r = - s) (sort_key (\<lambda>r. - score_key r) rs)
        = filter (\<lambda>r. - score_key r = - s) rs"
    by (rule sort_key_stable)
  then show ?thesis by (simp add: sort_by_score_def)
qed

lemma filter_take_prefix: "prefix (filter P (take n xs)) (filter P xs)"
proof -
  have "filter P xs = filter P (take n xs) @ filter P (drop n xs)"
    by (metis append_take_drop_id filter_append)
  then show ?thesis by (metis prefixI)
qed

lemma has_history_result:
  assumes "get_recommendations_for_user st uid limit = Inr rs"
      and "get_user_purchases st uid = Inr ups" and "ups \<noteq> []"
  shows "\<exists>prefs cands. analyze_user_preferences st ups = Inr prefs
      \<and> generate_candidates st prefs ups limit = Inr cands
      \<and> rs = py_slice_to limit (sort_by_score (map (scored prefs) (spec_first_occurrences cands)))"
proof -
  have v: "ObjectId_is_valid uid"
    using assms(2) by (simp add: get_user_purchases_def split: if_splits)
  have 1: "(case analyze_user_preferences st ups of Inl e \<Rightarrow> Inl e
           | Inr prefs \<Rightarrow> get_recommendations_by_preferences st prefs ups limit) = Inr rs"
    using assms v by (simp add: get_recommendations_for_user_def)
  then obtain prefs where a: "analyze_user_preferences st ups = Inr prefs"
    and 2: "get_recommendations_by_preferences st prefs ups limit = Inr rs"
    by (cases "analyze_user_preferences st ups") simp_all
  from 2 obtain cands where g: "generate_candidates st prefs ups limit = Inr cands"
    and rs: "rs = py_slice_to limit (sort_by_score (unique_loop prefs cands [] {}))"
    unfolding get_recommendations_by_preferences_def
    by (cases "generate_candidates st prefs ups limit") auto
  show ?thesis using a g rs by (simp add: unique_loop_first_occurrences)
qed

lemma strategy_category_cases:
  assumes "strategy_category st prefs ids limit = Inr ps"
  shows "ps = [] \<or> find_candidates st (\<lambda>p. category p = preferred_category prefs) ids (limit div 3) = Inr ps"
  using assms by (cases "truthy (preferred_category prefs)") (simp_all add: strategy_category_def)

lemma strategy_piece_type_cases:
  assumes "strategy_piece_type st prefs ids limit recs = Inr ps"
  shows "ps = [] \<or> (int (length recs) < limit \<and>
     find_candidates st (\<lambda>p. piece_type p = preferred_piece_type prefs) ids
       ((limit - int (length recs)) div 2) = Inr ps)"
  using assms
  by (cases "truthy (preferred_piece_type prefs) \<and> int (length recs) < limit")
     (simp_all add: strategy_piece_type_def Let_def)

lemma strategy_price_cases:
  assumes "strategy_price st prefs ids limit recs = Inr ps"
  shows "ps = [] \<or> (int (length recs) < limit \<and>
     find_candidates st
       (\<lambda>p. average_price prefs - average_price prefs * (3 / 10) \<le> price p
           \<and> price p \<le> average_price prefs + average_price prefs * (3 / 10)) ids
       (limit - int (length recs)) = Inr ps)"
  using assms
  by (cases "0 < average_price prefs \<and> int (length recs) < limit")
     (simp_all add: strategy_price_def Let_def)

lemma generate_candidates_parts:
  assumes "generate_candidates st prefs ups limit = Inr cands"
  shows "\<exists>p1 p2 p3.
    strategy_category st prefs (map product_id ups) limit = Inr p1 \<and>
    strategy_piece_type st prefs (map product_id ups) limit p1 = Inr p2 \<and>
    strategy_price st prefs (map product_id ups) limit (p1 @ p2) = Inr p3 \<and>
    cands = p1 @ p2 @ p3"
proof -
  let ?ids = "map product_id ups"
  obtain p1 where s1: "strategy_category st prefs ?ids limit = Inr p1"
    using assms by (cases "strategy_category st prefs ?ids limit")
      (simp_all add: generate_candidates_def Let_def)
  obtain p2 where s2: "strategy_piece_type st prefs ?ids limit p1 = Inr p2"
    using assms s1 by (cases "strategy_piece_type st prefs ?ids limit p1")
      (simp_all add: generate_candidates_def Let_def)
  obtain p3 where s3: "strategy_price st prefs ?ids limit (p1 @ p2) = Inr p3"
    using assms s1 s2 by (cases "strategy_price st prefs ?ids limit (p1 @ p2)")
      (simp_all add: generate_candidates_def Let_def)
  have "cands = p1 @ p2 @ p3"
    using assms s1 s2 s3 by (simp add: generate_candidates_def Let_def)
  with s1 s2 s3 show ?thesis by blast
qed

lemma generate_candidates_in_store:
  assumes "generate_candidates st prefs ups limit = Inr cands" and "c \<in> set cands"
  shows "c \<in> set (products_collection st)"
proof -
  let ?ids = "map product_id ups"
  from generate_candidates_parts [OF assms(1)] obtain p1 p2 p3 where
    s1: "strategy_category st prefs ?ids limit = Inr p1" and
    s2: "strategy_piece_type st prefs ?ids limit p1 = Inr p2" and
    s3: "strategy_price st prefs ?ids limit (p1 @ p2) = Inr p3" and
    cs: "cands = p1 @ p2 @ p3"
    by blast
  from assms(2) cs consider "c \<in> set p1" | "c \<in> set p2" | "c \<in> set p3" by auto
  then show ?thesis
  proof cases
    case 1
    with strategy_category_cases [OF s1] show ?thesis
      by (auto dest: find_candidates_in_store)
  next
    case 2
    with strategy_piece_type_cases [OF s2] show ?thesis
      by (auto dest: find_candidates_in_store)
  next
    case 3
    with strategy_price_cases [OF s3] show ?thesis
      by (auto dest: find_candidates_in_store)
  qed
qed

lemma set_py_slice_to: "set (py_slice_to n xs) \<subseteq> set xs"
  by (auto simp: py_slice_to_def dest: in_set_takeD)

lemma set_sort_by_score: "set (sort_by_score rs) = set rs"
  by (simp add: sort_by_score_def)

text \<open>
  Claim C6. For a user with a non-empty purchase history, no returned recommendation is
  a product of that history: the id of every purchase line, read as an object id,
  differs from the id of every returned product; where the stored ids are canonical,
  the two strings differ as well.
\<close>

theorem no_self_recommendation:
  assumes "get_recommendations_for_user st uid limit = Inr rs"
      and "get_user_purchases st uid = Inr ups" and "ups \<noteq> []"
      and "r \<in> set rs" and "u \<in> set ups"
  shows "ObjectId (product_id u) \<noteq> Inr (p_id (rec_product r))
       \<and> (ids_canonical st \<longrightarrow> product_id u \<noteq> p_id (rec_product r))"
proof -
  from has_history_result [OF assms(1-3)] obtain prefs cands where
    g: "generate_candidates st prefs ups limit = Inr cands" and
    rs: "rs = py_slice_to limit (sort_by_score (map (scored prefs) (spec_first_occurrences cands)))"
    by blast
  have "set rs \<subseteq> set (sort_by_score (map (scored prefs) (spec_first_occurrences cands)))"
    unfolding rs by (rule set_py_slice_to)
  with assms(4) have "r \<in> set (sort_by_score (map (scored prefs) (spec_first_occurrences cands)))"
    by (rule rev_subsetD)
  then have "r \<in> scored prefs ` set (spec_first_occurrences cands)"
    by (simp only: set_sort_by_score set_map)
  then obtain c where c: "c \<in> set (spec_first_occurrences cands)" and r: "r = scored prefs c"
    by (rule imageE)
  from c set_first_occurrences [of cands] have cc: "c \<in> set cands" by (rule rev_subsetD)
  have pr: "rec_product r = c" by (simp add: r scored_def)
  have ne: "ObjectId (product_id u) \<noteq> Inr (p_id c)"
    by (rule generate_candidates_sound [OF g cc assms(5)])
  have "product_id u \<noteq> p_id c" if can: "ids_canonical st"
  proof
    assume eq: "product_id u = p_id c"
    have "c \<in> set (products_collection st)"
      by (rule generate_candidates_in_store [OF g cc])
    with can have "ObjectId (p_id c) = Inr (p_id c)"
      by (simp add: ids_canonical_def list_all_iff)
    with ne eq show False by simp
  qed
  with ne show ?thesis unfolding pr by blast
qed

lemma py_slice_to_pos: "0 < n \<Longrightarrow> py_slice_to n xs = take (nat n) xs"
  by (simp add: py_slice_to_def)

lemma distinct_ids_sort_by_score:
  "distinct (map (\<lambda>r. p_id (rec_product r)) (sort_by_score rs))
   = distinct (map (\<lambda>r. p_id (rec_product r)) rs)"
  by (simp add: sort_by_score_def distinct_map)

lemma ids_scored: "map (\<lambda>r. p_id (rec_product r)) (map (scored prefs) ps) = map p_id ps"
  by (simp add: scored_def comp_def)

lemma sorted_wrt_take: "sorted_wrt R xs \<Longrightarrow> sorted_wrt R (take n xs)"
  by (metis append_take_drop_id sorted_wrt_append)

text \<open>
  Claim C8. For a has-history call with a positive limit that returns, the result is the
  first \<open>limit\<close> elements of the stable descending sort, by score, of the first
  occurrences of the candidates, each scored once. Hence no product id occurs twice,
  every element is the first candidate of its id and carries its score, which is not
  negative, the scores do not increase along the list, elements of equal score are in
  first-seen order, and there are at most \<open>limit\<close> elements.
\<close>

theorem has_history_output:
  assumes "get_recommendations_for_user st uid limit = Inr rs"
      and "get_user_purchases st uid = Inr ups" and "ups \<noteq> []" and "0 < limit"
  shows "\<exists>prefs cands.
        analyze_user_preferences st ups = Inr prefs
      \<and> generate_candidates st prefs ups limit = Inr cands
      \<and> rs = take (nat limit) (sort_by_score (map (scored prefs) (spec_first_occurrences cands)))
      \<and> distinct (map (\<lambda>r. p_id (rec_product r)) rs)
      \<and> (\<forall>r \<in> set rs.
            List.find (\<lambda>c. p_id c = p_id (rec_product r)) cands = Some (rec_product r)
          \<and> recommendation_score r = Some (calculate_recommendation_score (rec_product r) prefs)
          \<and> 0 \<le> score_key r)
      \<and> sorted_wrt (\<lambda>a b. score_key b \<le> score_key a) rs
      \<and> (\<forall>s. prefix (filter (\<lambda>r. score_key r = s) rs)
                 (filter (\<lambda>r. score_key r = s) (map (scored prefs) (spec_first_occurrences cands))))
      \<and> int (length rs) \<le> limit"
proof -
  from has_history_result [OF assms(1-3)] obtain prefs cands where
    a: "analyze_user_preferences st ups = Inr prefs" and
    g: "generate_candidates st prefs ups limit = Inr cands" and
    rs0: "rs = py_slice_to limit (sort_by_score (map (scored prefs) (spec_first_occurrences cands)))"
    by blast
  let ?u = "map (scored prefs) (spec_first_occurrences cands)"
  have rs: "rs = take (nat limit) (sort_by_score ?u)"
    unfolding rs0 by (rule py_slice_to_pos [OF assms(4)])
  have d: "distinct (map (\<lambda>r. p_id (rec_product r)) rs)"
    unfolding rs take_map [symmetric]
    by (rule distinct_take) (simp only: distinct_ids_sort_by_score ids_scored distinct_first_occurrences)
  have e: "List.find (\<lambda>c. p_id c = p_id (rec_product r)) cands = Some (rec_product r)
          \<and> recommendation_score r = Some (calculate_recommendation_score (rec_product r) prefs)
          \<and> 0 \<le> score_key r" if "r \<in> set rs" for r
  proof -
    from that have "r \<in> set (sort_by_score ?u)" unfolding rs by (rule in_set_takeD)
    then have "r \<in> scored prefs ` set (spec_first_occurrences cands)"
      by (simp only: set_sort_by_score set_map)
    then obtain c where c: "c \<in> set (spec_first_occurrences cands)" and r: "r = scored prefs c"
      by (rule imageE)
    have "List.find (\<lambda>x. p_id x = p_id c) cands = Some c"
      by (rule first_occurrences_find [OF c])
    then show ?thesis
      by (simp add: r scored_def score_key_def score_nonneg)
  qed
  have s: "sorted_wrt (\<lambda>a b. score_key b \<le> score_key a) rs"
    unfolding rs by (rule sorted_wrt_take) (rule sorted_by_score)
  have p: "prefix (filter (\<lambda>r. score_key r = s) rs) (filter (\<lambda>r. score_key r = s) ?u)" for s
  proof -
    have "prefix (filter (\<lambda>r. score_key r = s) rs) (filter (\<lambda>r. score_key r = s) (sort_by_score ?u))"
      unfolding rs by (rule filter_take_prefix)
    then show ?thesis by (simp only: stable_by_score)
  qed
  have l: "int (length rs) \<le> limit"
    unfolding rs using assms(4) by simp
  show ?thesis
    apply (rule exI [of _ prefs])
    apply (rule exI [of _ cands])
    apply (intro conjI allI ballI)
    apply (rule a)
    apply (rule g)
    apply (rule rs)
    apply (rule d)
    using e apply blast
    using e apply blast
    using e apply blast
    apply (rule s)
    apply (rule p)
    apply (rule l)
    done
qed

section \<open>The popularity fallback\<close>

lemma distinct_group_quantities:
  "distinct (map fst g) \<Longrightarrow> distinct (map fst (group_quantities ps g))"
  by (induction ps arbitrary: g) (auto simp: distinct_tally_add)

lemma map_of_group_quantities:
  "map_of (group_quantities ps g) k =
     (let hits = filter (\<lambda>u. product_id u = k) ps
      in if hits = [] then map_of g k
         else Some (tally_get g k 0 + sum_list (map quantity hits)))"
proof (induction ps arbitrary: g)
  case Nil
  then show ?case by simp
next
  case (Cons u us)
  show ?case
    unfolding group_quantities.simps Cons.IH
    by (simp add: Let_def map_of_tally_add tally_get_def)
qed

lemma group_quantities_entry:
  "(k, v) \<in> set (group_quantities ps []) \<longleftrightarrow>
     k \<in> product_id ` set ps \<and> v = spec_total_quantity ps k"
proof -
  have d: "distinct (map fst (group_quantities ps []))"
    by (rule distinct_group_quantities) simp
  have "(k, v) \<in> set (group_quantities ps []) \<longleftrightarrow> map_of (group_quantities ps []) k = Some v"
    using d by simp
  also have "\<dots> \<longleftrightarrow> k \<in> product_id ` set ps \<and> v = spec_total_quantity ps k"
    unfolding map_of_group_quantities
    by (auto simp: Let_def tally_get_def spec_total_quantity_def filter_empty_conv)
  finally show ?thesis .
qed

lemma group_quantities_keys: "fst ` set (group_quantities ps []) = product_id ` set ps"
proof
  show "fst ` set (group_quantities ps []) \<subseteq> product_id ` set ps"
    using group_quantities_entry by fastforce
  show "product_id ` set ps \<subseteq> fst ` set (group_quantities ps [])"
  proof
    fix k assume "k \<in> product_id ` set ps"
    then have "(k, spec_total_quantity ps k) \<in> set (group_quantities ps [])"
      by (simp add: group_quantities_entry)
    then show "k \<in> fst ` set (group_quantities ps [])" by force
  qed
qed

lemma length_group_quantities:
  "length (group_quantities ps []) = card (product_id ` set ps)"
proof -
  have d: "distinct (map fst (group_quantities ps []))"
    by (rule distinct_group_quantities) simp
  have "length (group_quantities ps []) = length (map fst (group_quantities ps []))" by simp
  also have "\<dots> = card (set (map fst (group_quantities ps [])))"
    using d by (simp only: distinct_card)
  also have "\<dots> = card (product_id ` set ps)"
    by (simp only: set_map group_quantities_keys)
  finally show ?thesis .
qed

lemma aggregate_popular_pos:
  "0 < limit \<Longrightarrow> aggregate_popular st limit = Inr (top_groups st (nat limit))"
  by (simp add: aggregate_popular_def top_groups_def)

lemma distinct_top_groups: "distinct (map fst (top_groups st n))"
proof -
  have d: "distinct (map fst (group_quantities (purchases_collection st) []))"
    by (rule distinct_group_quantities) simp
  then have "distinct (map fst (sort_key (\<lambda>g. - snd g) (group_quantities (purchases_collection st) [])))"
    by (simp add: distinct_map)
  then show ?thesis
    unfolding top_groups_def take_map [symmetric] by (rule distinct_take)
qed

lemma set_top_groups:
  "fst ` set (top_groups st n) \<subseteq> product_id ` set (purchases_collection st)"
proof -
  have "set (top_groups st n) \<subseteq> set (group_quantities (purchases_collection st) [])"
    unfolding top_groups_def using set_take_subset [of n] by fastforce
  then have "fst ` set (top_groups st n) \<subseteq> fst ` set (group_quantities (purchases_collection st) [])"
    by (rule image_mono)
  then show ?thesis by (simp only: group_quantities_keys)
qed

lemma length_top_groups:
  "length (top_groups st n) = min n (card (product_id ` set (purchases_collection st)))"
  by (simp add: top_groups_def length_group_quantities min.commute)

lemma top_groups_total:
  "(k, v) \<in> set (top_groups st n) \<Longrightarrow> v = spec_total_quantity (purchases_collection st) k"
proof -
  assume "(k, v) \<in> set (top_groups st n)"
  then have "(k, v) \<in> set (sort_key (\<lambda>g. - snd g) (group_quantities (purchases_collection st) []))"
    unfolding top_groups_def by (rule in_set_takeD)
  then have "(k, v) \<in> set (group_quantities (purchases_collection st) [])" by simp
  then show ?thesis by (simp add: group_quantities_entry)
qed

lemma top_groups_dominate:
  assumes "k \<in> fst ` set (top_groups st n)"
      and "k' \<in> product_id ` set (purchases_collection st)"
      and "k' \<notin> fst ` set (top_groups st n)"
  shows "spec_total_quantity (purchases_collection st) k'
           \<le> spec_total_quantity (purchases_collection st) k"
proof -
  let ?ps = "purchases_collection st"
  let ?s = "sort_key (\<lambda>g. - snd g) (group_quantities ?ps [])"
  from assms(1) obtain v where kv: "(k, v) \<in> set (take n ?s)"
    unfolding top_groups_def by force
  have v: "v = spec_total_quantity ?ps k"
    using kv top_groups_total [of k v st n] by (simp add: top_groups_def)
  from assms(2) have "(k', spec_total_quantity ?ps k') \<in> set (group_quantities ?ps [])"
    by (simp add: group_quantities_entry)
  then have "(k', spec_total_quantity ?ps k') \<in> set ?s" by simp
  then have "(k', spec_total_quantity ?ps k') \<in> set (take n ?s) \<union> set (drop n ?s)"
    by (simp only: set_append [symmetric] append_take_drop_id)
  moreover have "(k', spec_total_quantity ?ps k') \<notin> set (take n ?s)"
    using assms(3) unfolding top_groups_def by force
  ultimately have k'v: "(k', spec_total_quantity ?ps k') \<in> set (drop n ?s)" by blast
  have "sorted (map (\<lambda>g. - snd g) ?s)" by (rule sorted_sort_key)
  then have "sorted (map (\<lambda>g. - snd g) (take n ?s) @ map (\<lambda>g. - snd g) (drop n ?s))"
    by (simp only: map_append [symmetric] append_take_drop_id)
  then have "\<forall>x \<in> set (map (\<lambda>g. - snd g) (take n ?s)).
             \<forall>y \<in> set (map (\<lambda>g. - snd g) (drop n ?s)). x \<le> y"
    by (simp only: sorted_append) blast
  with kv k'v have "- v \<le> - spec_total_quantity ?ps k'" by force
  with v show ?thesis by simp
qed

lemma top_groups_empty:
  "0 < n \<Longrightarrow> top_groups st n = [] \<longleftrightarrow> purchases_collection st = []"
proof -
  assume n: "0 < n"
  have "top_groups st n = [] \<longleftrightarrow> length (top_groups st n) = 0" by simp
  also have "\<dots> \<longleftrightarrow> card (product_id ` set (purchases_collection st)) = 0"
    using n unfolding length_top_groups by (cases "card (product_id ` set (purchases_collection st))") simp_all
  also have "\<dots> \<longleftrightarrow> purchases_collection st = []" by simp
  finally show ?thesis .
qed

lemma length_filter_ids:
  assumes "distinct (map f xs)"
  shows "length (filter (\<lambda>x. f x \<in> set ys) xs) \<le> length ys"
proof -
  have d: "distinct (map f (filter (\<lambda>x. f x \<in> set ys) xs))"
    using assms by (simp add: distinct_map_filter)
  have "length (filter (\<lambda>x. f x \<in> set ys) xs) = length (map f (filter (\<lambda>x. f x \<in> set ys) xs))"
    by simp
  also have "\<dots> = card (set (map f (filter (\<lambda>x. f x \<in> set ys) xs)))"
    using d by (simp only: distinct_card)
  also have "\<dots> \<le> card (set ys)"
    by (rule card_mono) auto
  also have "\<dots> \<le> length ys" by (rule card_length)
  finally show ?thesis .
qed

lemma list_all_map_comp: "list_all P (map f xs) = list_all (\<lambda>x. P (f x)) xs"
  by (simp add: list_all_iff)

lemma get_popular_products_pos:
  assumes "0 < limit"
  shows "get_popular_products st limit =
     (if purchases_collection st = []
      then Inr (map serialize_document
                  (cursor_limit limit
                     (filter (\<lambda>p. 0 < stock_quantity p) (products_collection st))))
      else (case object_ids (map fst (top_groups st (nat limit))) of
              Inl e \<Rightarrow> Inl e
            | Inr product_ids \<Rightarrow>
                Inr (map serialize_document
                       (filter (\<lambda>p. p_id p \<in> set product_ids) (products_collection st)))))"
proof -
  have n: "0 < nat limit" using assms by simp
  show ?thesis
    unfolding get_popular_products_def aggregate_popular_pos [OF assms] sum.case
      top_groups_empty [OF n]
    by (rule refl)
qed

lemma get_popular_products_length:
  assumes "get_popular_products st limit = Inr rs" and "0 < limit"
      and "distinct (map p_id (products_collection st))"
  shows "int (length rs) \<le> limit"
proof (cases "purchases_collection st = []")
  case True
  with assms(1) have "rs = map serialize_document
      (cursor_limit limit (filter (\<lambda>p. 0 < stock_quantity p) (products_collection st)))"
    unfolding get_popular_products_pos [OF assms(2)] by simp
  then show ?thesis using assms(2) by (simp add: cursor_limit_def)
next
  case False
  with assms(1) have c: "(case object_ids (map fst (top_groups st (nat limit))) of
              Inl e \<Rightarrow> Inl e
            | Inr product_ids \<Rightarrow>
                Inr (map serialize_document
                       (filter (\<lambda>p. p_id p \<in> set product_ids) (products_collection st)))) = Inr rs"
    unfolding get_popular_products_pos [OF assms(2)] by simp
  then obtain oids where o: "object_ids (map fst (top_groups st (nat limit))) = Inr oids"
    and rs: "rs = map serialize_document
                (filter (\<lambda>p. p_id p \<in> set oids) (products_collection st))"
    by (cases "object_ids (map fst (top_groups st (nat limit)))") auto
  from object_ids_Inr [OF o] have "length oids = length (top_groups st (nat limit))" by simp
  then have "length oids \<le> nat limit" by (simp add: length_top_groups)
  moreover have "length rs \<le> length oids"
    unfolding rs length_map by (rule length_filter_ids [OF assms(3)])
  ultimately have "length rs \<le> nat limit" by simp
  then show ?thesis using assms(2) by simp
qed

lemma get_user_purchases_valid:
  "ObjectId_is_valid uid \<Longrightarrow>
   get_user_purchases st uid =
     Inr (sort_key (\<lambda>u. - purchase_date u)
            (filter (\<lambda>u. user_id u = uid) (purchases_collection st)))"
  by (simp add: get_user_purchases_def)

lemma get_recommendations_valid:
  assumes "get_recommendations_for_user st uid limit = Inr rs"
  shows "ObjectId_is_valid uid"
  using assms by (cases "ObjectId_is_valid uid") (simp_all add: get_recommendations_for_user_def)

lemma no_history_result:
  assumes "get_user_purchases st uid = Inr []"
  shows "get_recommendations_for_user st uid limit = get_popular_products st limit"
proof -
  have "ObjectId_is_valid uid"
    using assms by (cases "ObjectId_is_valid uid") (simp_all add: get_user_purchases_def)
  then show ?thesis by (simp add: get_recommendations_for_user_def assms)
qed

text \<open>
  Claim C9. Every call with a positive limit that returns, returns at most \<open>limit\<close>
  elements, on the has-history path, on the popularity fallback and on the cold-store
  fallback alike. (MongoDB keeps the \<^verbatim>\<open>'_id'\<close>s of a collection distinct.)
\<close>

theorem limit_respected:
  assumes "get_recommendations_for_user st uid limit = Inr rs" and "0 < limit"
      and "distinct (map p_id (products_collection st))"
  shows "int (length rs) \<le> limit"
proof -
  have v: "ObjectId_is_valid uid" by (rule get_recommendations_valid [OF assms(1)])
  obtain ups where h: "get_user_purchases st uid = Inr ups"
    using get_user_purchases_valid [OF v] by blast
  show ?thesis
  proof (cases "ups = []")
    case True
    with h assms(1) have "get_popular_products st limit = Inr rs"
      by (simp add: no_history_result)
    then show ?thesis by (rule get_popular_products_length [OF _ assms(2,3)])
  next
    case False
    from has_history_result [OF assms(1) h False] obtain prefs cands where
      "rs = py_slice_to limit (sort_by_score (map (scored prefs) (spec_first_occurrences cands)))"
      by blast
    then show ?thesis using assms(2) by (simp add: py_slice_to_pos)
  qed
qed

text \<open>
  Claim C3, as the code has it. For a user with an empty purchase history, a non-empty
  purchase collection with well-formed product ids and a positive limit, the call
  returns, each once and in an order that is not specified, the stored products whose
  id is one of the top \<open>limit\<close> product ids by total purchased quantity: these ids
  are distinct, there are \<open>limit\<close> of them (or all, if fewer were ever bought), and
  no id outside them has a greater total than one of them.
\<close>

theorem popular_fallback_products:
  assumes "get_user_purchases st uid = Inr []"
      and "purchases_collection st \<noteq> []"
      and "0 < limit"
      and "list_all (\<lambda>u. ObjectId_is_valid (product_id u)) (purchases_collection st)"
  shows "\<exists>top rs.
        get_recommendations_for_user st uid limit = Inr rs
      \<and> mset rs = image_mset serialize_document
                    (filter_mset (\<lambda>p. p_id p \<in> set (map (map hex_lower) top))
                       (mset (products_collection st)))
      \<and> distinct top
      \<and> set top \<subseteq> product_id ` set (purchases_collection st)
      \<and> length top = min (nat limit) (card (product_id ` set (purchases_collection st)))
      \<and> (\<forall>k \<in> set top. \<forall>k' \<in> product_id ` set (purchases_collection st) - set top.
            spec_total_quantity (purchases_collection st) k'
              \<le> spec_total_quantity (purchases_collection st) k)"
proof -
  let ?top = "map fst (top_groups st (nat limit))"
  let ?rs = "map serialize_document
               (filter (\<lambda>p. p_id p \<in> set (map (map hex_lower) ?top)) (products_collection st))"
  have sub: "set ?top \<subseteq> product_id ` set (purchases_collection st)"
    unfolding set_map by (rule set_top_groups)
  have "list_all ObjectId_is_valid ?top"
    unfolding list_all_iff
  proof
    fix k assume "k \<in> set ?top"
    with sub have "k \<in> product_id ` set (purchases_collection st)" by (rule subsetD)
    with assms(4) show "ObjectId_is_valid k" by (auto simp: list_all_iff)
  qed
  then have o: "object_ids ?top = Inr (map (map hex_lower) ?top)" by (rule object_ids_valid)
  have r: "get_recommendations_for_user st uid limit = Inr ?rs"
    unfolding no_history_result [OF assms(1)] get_popular_products_pos [OF assms(3)] o
    using assms(2) by simp
  have m: "mset ?rs = image_mset serialize_document
                    (filter_mset (\<lambda>p. p_id p \<in> set (map (map hex_lower) ?top))
                       (mset (products_collection st)))"
    by simp
  have d: "distinct ?top" by (rule distinct_top_groups)
  have l: "length ?top = min (nat limit) (card (product_id ` set (purchases_collection st)))"
    by (simp add: length_top_groups)
  have t: "\<forall>k \<in> set ?top. \<forall>k' \<in> product_id ` set (purchases_collection st) - set ?top.
            spec_total_quantity (purchases_collection st) k'
              \<le> spec_total_quantity (purchases_collection st) k"
    unfolding set_map using top_groups_dominate by blast
  from r m d sub l t show ?thesis by (intro exI [of _ ?top] exI [of _ ?rs] conjI)
qed

section \<open>The sample store, evaluated\<close>

lemma ana_history: "get_user_purchases shop uid_ana = Inr ana_purchases"
  by (simp add: get_user_purchases_def sample_defs driver_defs)

lemma ana_profile: "analyze_user_preferences shop ana_purchases = Inr ana_prefs"
  by (simp add: analyze_user_preferences_def tally_purchase_def tally_add_def tally_get_def
        get_or_empty_def sample_defs driver_defs)

lemma ana_object_ids:
  "object_ids (map product_id ana_purchases) =
     Inr [''bbbbbbbbbbbbbbbbbbbbbbb2'', ''bbbbbbbbbbbbbbbbbbbbbbb0'', ''bbbbbbbbbbbbbbbbbbbbbbb1'']"
  by (simp add: sample_defs driver_defs)

lemma ana_category_5:
  "strategy_category shop ana_prefs (map product_id ana_purchases) 5 = Inr [prod_c]"
  unfolding strategy_category_def find_candidates_def ana_object_ids
  by (simp add: truthy_def cursor_limit_def sample_defs)

lemma ana_piece_type_5:
  "strategy_piece_type shop ana_prefs (map product_id ana_purchases) 5 [prod_c] = Inr [prod_g]"
  unfolding strategy_piece_type_def find_candidates_def ana_object_ids
  by (simp add: truthy_def cursor_limit_def sample_defs)

lemma ana_price_5:
  "strategy_price shop ana_prefs (map product_id ana_purchases) 5 ([prod_c] @ [prod_g])
     = Inr [prod_c, prod_f, prod_g]"
  unfolding strategy_price_def find_candidates_def ana_object_ids
  by (simp add: cursor_limit_def sample_defs)

lemma ana_candidates_5:
  "generate_candidates shop ana_prefs ana_purchases 5
     = Inr [prod_c, prod_g, prod_c, prod_f, prod_g]"
  unfolding generate_candidates_def Let_def ana_category_5 sum.case ana_piece_type_5 ana_price_5
  by simp

lemma ana_unique_5:
  "unique_loop ana_prefs [prod_c, prod_g, prod_c, prod_f, prod_g] [] {}
     = [scored ana_prefs prod_c, scored ana_prefs prod_g, scored ana_prefs prod_f]"
  by (simp add: prod_c_def prod_g_def prod_f_def)

lemma ana_scores:
  "score_key (scored ana_prefs prod_c) = 47 / 12"
  "score_key (scored ana_prefs prod_g) = 13 / 3"
  "score_key (scored ana_prefs prod_f) = 21 / 4"
  by (simp_all add: score_key_def scored_def calculate_recommendation_score_def sample_defs)

lemma ana_recommendations_5:
  "get_recommendations_for_user shop uid_ana 5
     = Inr [scored ana_prefs prod_f, scored ana_prefs prod_g, scored ana_prefs prod_c]"
proof -
  have v: "ObjectId_is_valid uid_ana" by (simp add: sample_defs driver_defs)
  have ne: "ana_purchases \<noteq> []" by (simp add: ana_purchases_def)
  have "get_recommendations_for_user shop uid_ana 5
        = get_recommendations_by_preferences shop ana_prefs ana_purchases 5"
    by (simp add: get_recommendations_for_user_def v ana_history ne ana_profile)
  also have "\<dots> = Inr (py_slice_to 5 (sort_by_score
       [scored ana_prefs prod_c, scored ana_prefs prod_g, scored ana_prefs prod_f]))"
    unfolding get_recommendations_by_preferences_def ana_candidates_5 sum.case ana_unique_5
    by (rule refl)
  also have "sort_by_score [scored ana_prefs prod_c, scored ana_prefs prod_g, scored ana_prefs prod_f]
       = [scored ana_prefs prod_f, scored ana_prefs prod_g, scored ana_prefs prod_c]"
    by (simp add: sort_by_score_def ana_scores)
  finally show ?thesis by (simp add: py_slice_to_def)
qed

lemma shop_canonical: "ids_canonical shop"
  by (simp add: ids_canonical_def sample_defs driver_defs)

theorem no_self_recommendation_witness:
  "get_recommendations_for_user shop uid_ana 5
     = Inr [scored ana_prefs prod_f, scored ana_prefs prod_g, scored ana_prefs prod_c]
   \<and> get_user_purchases shop uid_ana = Inr ana_purchases \<and> ana_purchases \<noteq> []
   \<and> scored ana_prefs prod_g
        \<in> set [scored ana_prefs prod_f, scored ana_prefs prod_g, scored ana_prefs prod_c]
   \<and> buy uid_ana ''BBBBBBBBBBBBBBBBBBBBBBB2'' 1 200 \<in> set ana_purchases
   \<and> ids_canonical shop
   \<and> ObjectId (product_id (buy uid_ana ''BBBBBBBBBBBBBBBBBBBBBBB2'' 1 200))
        \<noteq> Inr (p_id (rec_product (scored ana_prefs prod_g)))
   \<and> product_id (buy uid_ana ''BBBBBBBBBBBBBBBBBBBBBBB2'' 1 200)
        \<noteq> p_id (rec_product (scored ana_prefs prod_g))"
proof -
  have ne: "ana_purchases \<noteq> []" by (simp add: ana_purchases_def)
  have r: "scored ana_prefs prod_g
        \<in> set [scored ana_prefs prod_f, scored ana_prefs prod_g, scored ana_prefs prod_c]"
    by simp
  have u: "buy uid_ana ''BBBBBBBBBBBBBBBBBBBBBBB2'' 1 200 \<in> set ana_purchases"
    by (simp add: ana_purchases_def)
  from no_self_recommendation [OF ana_recommendations_5 ana_history ne r u] shop_canonical
  show ?thesis using ana_recommendations_5 ana_history ne r u by blast
qed

lemma ana_nonempty: "ana_purchases \<noteq> []"
  by (simp add: ana_purchases_def)

theorem has_history_output_witness:
  "get_recommendations_for_user shop uid_ana 5
     = Inr [scored ana_prefs prod_f, scored ana_prefs prod_g, scored ana_prefs prod_c]
   \<and> get_user_purchases shop uid_ana = Inr ana_purchases \<and> ana_purchases \<noteq> [] \<and> (0::int) < 5
   \<and> distinct (map (\<lambda>r. p_id (rec_product r))
        [scored ana_prefs prod_f, scored ana_prefs prod_g, scored ana_prefs prod_c])
   \<and> sorted_wrt (\<lambda>a b. score_key b \<le> score_key a)
        [scored ana_prefs prod_f, scored ana_prefs prod_g, scored ana_prefs prod_c]
   \<and> int (length [scored ana_prefs prod_f, scored ana_prefs prod_g, scored ana_prefs prod_c]) \<le> 5"
proof -
  have pos: "(0::int) < 5" by simp
  from has_history_output [OF ana_recommendations_5 ana_history ana_nonempty pos]
  have "distinct (map (\<lambda>r. p_id (rec_product r))
        [scored ana_prefs prod_f, scored ana_prefs prod_g, scored ana_prefs prod_c])
   \<and> sorted_wrt (\<lambda>a b. score_key b \<le> score_key a)
        [scored ana_prefs prod_f, scored ana_prefs prod_g, scored ana_prefs prod_c]
   \<and> int (length [scored ana_prefs prod_f, scored ana_prefs prod_g, scored ana_prefs prod_c]) \<le> 5"
    by (elim exE conjE) (intro conjI)
  with ana_recommendations_5 ana_history ana_nonempty pos show ?thesis by (intro conjI) simp_all
qed

lemma bia_history: "get_user_purchases shop uid_bia = Inr []"
  by (simp add: get_user_purchases_def sample_defs driver_defs)

lemma shop_groups:
  "group_quantities (purchases_collection shop) [] =
     [(''bbbbbbbbbbbbbbbbbbbbbbb1'', 2), (''bbbbbbbbbbbbbbbbbbbbbbb0'', 4),
      (''BBBBBBBBBBBBBBBBBBBBBBB2'', 1), (''bbbbbbbbbbbbbbbbbbbbbbb4'', 5)]"
  by (simp add: shop_def buy_def tally_add_def tally_get_def)

lemma shop_sorted_groups:
  "sort_key (\<lambda>g. - snd g) (group_quantities (purchases_collection shop) []) =
     [(''bbbbbbbbbbbbbbbbbbbbbbb4'', 5), (''bbbbbbbbbbbbbbbbbbbbbbb0'', 4),
      (''bbbbbbbbbbbbbbbbbbbbbbb1'', 2), (''BBBBBBBBBBBBBBBBBBBBBBB2'', 1)]"
  unfolding shop_groups by simp

lemma shop_popular_1:
  "get_popular_products shop 1 = Inr [serialize_document prod_d]"
  unfolding get_popular_products_def aggregate_popular_def shop_sorted_groups
  by (simp add: sample_defs driver_defs)

lemma shop_popular_3:
  "get_popular_products shop 3 = Inr [serialize_document prod_a, serialize_document prod_d]"
  unfolding get_popular_products_def aggregate_popular_def shop_sorted_groups
  by (simp add: sample_defs driver_defs)

lemma shop_popular_5:
  "get_popular_products shop 5 =
     Inr [serialize_document prod_a, serialize_document prod_b, serialize_document prod_d]"
  unfolding get_popular_products_def aggregate_popular_def shop_sorted_groups
  by (simp add: sample_defs driver_defs)

lemma cold_popular_2:
  "get_popular_products cold_shop 2 = Inr [serialize_document prod_a, serialize_document prod_b]"
  by (simp add: get_popular_products_def aggregate_popular_def cold_shop_def sample_defs driver_defs)

lemma shop_distinct: "distinct (map p_id (products_collection shop))"
  by (simp add: sample_defs)

section \<open>Errors and the users collection\<close>

lemma ObjectId_error: "ObjectId s = Inl e \<Longrightarrow> e = InvalidId"
  by (simp add: ObjectId_def split: if_splits)

lemma object_ids_error: "object_ids ss = Inl e \<Longrightarrow> e = InvalidId"
  by (induction ss) (auto simp: ObjectId_def split: if_splits sum.splits)

lemma analyze_loop_error: "analyze_loop st ps a = Inl e \<Longrightarrow> e = InvalidId"
  by (induction ps arbitrary: a) (auto simp: ObjectId_def split: if_splits option.splits)

lemma analyze_error: "analyze_user_preferences st ps = Inl e \<Longrightarrow> e = InvalidId"
  unfolding analyze_user_preferences_def
  by (auto dest: analyze_loop_error split: sum.splits)

lemma find_candidates_error: "find_candidates st cond ids n = Inl e \<Longrightarrow> e = InvalidId"
  unfolding find_candidates_def
  by (auto dest: object_ids_error split: sum.splits)

lemma strategy_category_error: "strategy_category st prefs ids limit = Inl e \<Longrightarrow> e = InvalidId"
  unfolding strategy_category_def
  by (auto dest: find_candidates_error split: if_splits)

lemma strategy_piece_type_error:
  "strategy_piece_type st prefs ids limit recs = Inl e \<Longrightarrow> e = InvalidId"
  unfolding strategy_piece_type_def Let_def
  by (auto dest: find_candidates_error split: if_splits)

lemma strategy_price_error:
  "strategy_price st prefs ids limit recs = Inl e \<Longrightarrow> e = InvalidId"
  unfolding strategy_price_def Let_def
  by (auto dest: find_candidates_error split: if_splits)

lemma generate_candidates_error:
  "generate_candidates st prefs ups limit = Inl e \<Longrightarrow> e = InvalidId"
  unfolding generate_candidates_def Let_def
  by (auto dest: strategy_category_error strategy_piece_type_error strategy_price_error
        split: sum.splits)

lemma by_preferences_error:
  "get_recommendations_by_preferences st prefs ups limit = Inl e \<Longrightarrow> e = InvalidId"
  unfolding get_recommendations_by_preferences_def
  by (auto dest: generate_candidates_error split: sum.splits)

lemma popular_error:
  "get_popular_products st limit = Inl e \<Longrightarrow> e = InvalidId \<or> e = OperationFailure"
  unfolding get_popular_products_def aggregate_popular_def
  by (auto dest: object_ids_error split: sum.splits if_splits)

lemma recommendations_error:
  "get_recommendations_for_user st uid limit = Inl e \<Longrightarrow>
     e = InvalidArgument \<or> e = InvalidId \<or> e = OperationFailure"
  unfolding get_recommendations_for_user_def get_user_purchases_def
  by (auto dest: popular_error analyze_error by_preferences_error split: sum.splits if_splits)

lemma never_NotFound: "get_recommendations_for_user st uid limit \<noteq> Inl NotFound"
  using recommendations_error [of st uid limit NotFound] by auto

lemma find_one_users [simp]: "find_one (st\<lparr>users_collection := us\<rparr>) oid = find_one st oid"
  by (simp add: find_one_def)

lemma analyze_loop_users:
  "analyze_loop (st\<lparr>users_collection := us\<rparr>) ps a = analyze_loop st ps a"
  by (induction ps arbitrary: a) (simp_all split: sum.splits option.splits)

lemma analyze_users:
  "analyze_user_preferences (st\<lparr>users_collection := us\<rparr>) ps = analyze_user_preferences st ps"
  by (simp add: analyze_user_preferences_def analyze_loop_users)

lemma products_users:
  "products_collection (st\<lparr>users_collection := us\<rparr>) = products_collection st"
  by simp

lemma purchases_users:
  "purchases_collection (st\<lparr>users_collection := us\<rparr>) = purchases_collection st"
  by simp

lemma generate_candidates_users:
  "generate_candidates (st\<lparr>users_collection := us\<rparr>) prefs ups limit
     = generate_candidates st prefs ups limit"
  unfolding generate_candidates_def strategy_category_def strategy_piece_type_def
    strategy_price_def find_candidates_def products_users
  by (rule refl)

lemma by_preferences_users:
  "get_recommendations_by_preferences (st\<lparr>users_collection := us\<rparr>) prefs ups limit
     = get_recommendations_by_preferences st prefs ups limit"
  unfolding get_recommendations_by_preferences_def generate_candidates_users
  by (rule refl)

lemma popular_users:
  "get_popular_products (st\<lparr>users_collection := us\<rparr>) limit = get_popular_products st limit"
  unfolding get_popular_products_def aggregate_popular_def products_users purchases_users
  by (rule refl)

lemma get_user_purchases_users:
  "get_user_purchases (st\<lparr>users_collection := us\<rparr>) uid = get_user_purchases st uid"
  unfolding get_user_purchases_def purchases_users
  by (rule refl)

lemma users_not_read:
  "get_recommendations_for_user (st\<lparr>users_collection := us\<rparr>) uid limit
     = get_recommendations_for_user st uid limit"
  unfolding get_recommendations_for_user_def get_user_purchases_users popular_users
    analyze_users by_preferences_users
  by (rule refl)

text \<open>
  Claim C1, as the code has it. The service never looks a user up: no call fails with
  \<open>NotFound\<close>, and the result of no call depends on the users collection. A call with
  a well-formed id to which no purchase record refers, which is the case of an id that
  was never registered, returns what the popularity fallback returns.
\<close>

theorem unknown_user_gets_fallback:
  "get_recommendations_for_user st uid limit \<noteq> Inl NotFound
   \<and> get_recommendations_for_user (st\<lparr>users_collection := us\<rparr>) uid limit
       = get_recommendations_for_user st uid limit
   \<and> (ObjectId_is_valid uid
        \<and> filter (\<lambda>u. user_id u = uid) (purchases_collection st) = []
      \<longrightarrow> get_recommendations_for_user st uid limit = get_popular_products st limit)"
proof -
  have "get_recommendations_for_user st uid limit = get_popular_products st limit"
    if v: "ObjectId_is_valid uid"
    and n: "filter (\<lambda>u. user_id u = uid) (purchases_collection st) = []"
  proof -
    have "get_user_purchases st uid = Inr []"
      by (simp add: get_user_purchases_valid [OF v] n)
    then show ?thesis by (rule no_history_result)
  qed
  then show ?thesis
    by (intro conjI impI never_NotFound users_not_read) (elim conjE)
qed

section \<open>Limits that are not positive\<close>

lemma analyze_loop_invalid:
  "\<not> list_all (\<lambda>u. ObjectId_is_valid (product_id u)) ps \<Longrightarrow>
   analyze_loop st ps a = Inl InvalidId"
  by (induction ps arbitrary: a) (auto simp: ObjectId_def split: option.splits)

lemma analyze_invalid:
  "\<not> list_all (\<lambda>u. ObjectId_is_valid (product_id u)) ps \<Longrightarrow>
   analyze_user_preferences st ps = Inl InvalidId"
  by (simp add: analyze_user_preferences_def analyze_loop_invalid)

lemma analyze_valid:
  "list_all (\<lambda>u. ObjectId_is_valid (product_id u)) ps \<Longrightarrow>
   \<exists>prefs. analyze_user_preferences st ps = Inr prefs"
  by (simp add: analyze_user_preferences_def analyze_loop_lines)

lemma length_first_occurrences: "length (spec_first_occurrences ps) \<le> length ps"
proof (induction ps rule: spec_first_occurrences.induct)
  case 1
  then show ?case by simp
next
  case (2 p ps)
  have "length (filter (\<lambda>q. p_id q \<noteq> p_id p) ps) \<le> length ps" by (rule length_filter_le)
  with 2 have "length (spec_first_occurrences (filter (\<lambda>q. p_id q \<noteq> p_id p) ps)) \<le> length ps"
    by (rule order_trans)
  then show ?case by simp
qed

lemma find_candidates_valid:
  assumes "list_all (\<lambda>u. ObjectId_is_valid (product_id u)) ups"
  shows "\<exists>ps. find_candidates st cond (map product_id ups) n = Inr ps"
proof -
  have "list_all ObjectId_is_valid (map product_id ups)"
    using assms by (simp add: list_all_map_comp)
  then have "object_ids (map product_id ups) = Inr (map (map hex_lower) (map product_id ups))"
    by (rule object_ids_valid)
  then show ?thesis by (simp add: find_candidates_def)
qed

lemma candidates_nonpositive:
  assumes "limit \<le> 0" and "list_all (\<lambda>u. ObjectId_is_valid (product_id u)) ups"
  shows "\<exists>cands. generate_candidates st prefs ups limit = Inr cands
           \<and> (limit < 0 \<longrightarrow> int (length cands) \<le> - limit)"
proof -
  let ?ids = "map product_id ups"
  obtain p1 where s1: "strategy_category st prefs ?ids limit = Inr p1"
  proof (cases "truthy (preferred_category prefs)")
    case True
    from find_candidates_valid [OF assms(2)] obtain ps where
      "find_candidates st (\<lambda>p. category p = preferred_category prefs) ?ids (limit div 3) = Inr ps"
      by blast
    with True have "strategy_category st prefs ?ids limit = Inr ps"
      by (simp add: strategy_category_def)
    then show ?thesis by (rule that)
  next
    case False
    then have "strategy_category st prefs ?ids limit = Inr []"
      by (simp add: strategy_category_def)
    then show ?thesis by (rule that)
  qed
  have n: "\<not> int (length recs) < limit" for recs :: "product list"
    using assms(1) by simp
  have s2: "strategy_piece_type st prefs ?ids limit p1 = Inr []"
    by (simp add: strategy_piece_type_def n)
  have s3: "strategy_price st prefs ?ids limit (p1 @ []) = Inr []"
    unfolding strategy_price_def using n [of "p1 @ []"] by simp
  have g: "generate_candidates st prefs ups limit = Inr p1"
    unfolding generate_candidates_def Let_def s1 sum.case s2 s3 by simp
  have "int (length p1) \<le> - limit" if neg: "limit < 0"
  proof -
    from strategy_category_cases [OF s1] show ?thesis
    proof
      assume "p1 = []"
      then show ?thesis using neg by simp
    next
      assume f: "find_candidates st (\<lambda>p. category p = preferred_category prefs) ?ids (limit div 3)
                   = Inr p1"
      have nz: "limit div 3 \<noteq> 0" using neg by presburger
      from find_candidates_length [OF f nz] have "int (length p1) \<le> \<bar>limit div 3\<bar>" .
      also have "\<dots> \<le> - limit" using neg by presburger
      finally show ?thesis .
    qed
  qed
  with g show ?thesis by blast
qed

lemma by_preferences_nonpositive:
  assumes "limit \<le> 0" and "list_all (\<lambda>u. ObjectId_is_valid (product_id u)) ups"
  shows "get_recommendations_by_preferences st prefs ups limit = Inr []"
proof -
  from candidates_nonpositive [OF assms] obtain cands where
    g: "generate_candidates st prefs ups limit = Inr cands" and
    l: "limit < 0 \<longrightarrow> int (length cands) \<le> - limit"
    by blast
  let ?u = "sort_by_score (unique_loop prefs cands [] {})"
  have len: "length ?u \<le> length cands"
    by (simp add: sort_by_score_def unique_loop_first_occurrences length_first_occurrences)
  have "py_slice_to limit ?u = []"
  proof (cases "limit = 0")
    case True
    then show ?thesis by (simp add: py_slice_to_def)
  next
    case False
    with assms(1) have neg: "limit < 0" by simp
    with l len have "int (length ?u) + limit \<le> 0" by linarith
    then show ?thesis using neg by (simp add: py_slice_to_def)
  qed
  then show ?thesis
    unfolding get_recommendations_by_preferences_def g sum.case by simp
qed

lemma nonpositive_limit_result:
  assumes "ObjectId_is_valid uid" and "limit \<le> 0"
      and "get_user_purchases st uid = Inr ups"
  shows "get_recommendations_for_user st uid limit =
           (if ups = [] then Inl OperationFailure
            else if list_all (\<lambda>u. ObjectId_is_valid (product_id u)) ups then Inr []
            else Inl InvalidId)"
proof (cases "ups = []")
  case True
  have "get_popular_products st limit = Inl OperationFailure"
    using assms(2) by (simp add: get_popular_products_def aggregate_popular_def)
  with True assms(3) show ?thesis by (simp add: no_history_result)
next
  case False
  have r: "get_recommendations_for_user st uid limit =
        (case analyze_user_preferences st ups of Inl e \<Rightarrow> Inl e
         | Inr prefs \<Rightarrow> get_recommendations_by_preferences st prefs ups limit)"
    using assms(1,3) False by (simp add: get_recommendations_for_user_def)
  show ?thesis
  proof (cases "list_all (\<lambda>u. ObjectId_is_valid (product_id u)) ups")
    case True
    from analyze_valid [OF True] obtain prefs where
      a: "analyze_user_preferences st ups = Inr prefs" by blast
    show ?thesis
      unfolding r a sum.case by_preferences_nonpositive [OF assms(2) True]
      using False True by simp
  next
    case inv: False
    show ?thesis
      unfolding r analyze_invalid [OF inv] using False inv by simp
  qed
qed

text \<open>
  Claim C2, as the code has it. The limit is never validated. With a well-formed user id
  and a limit that is not positive, the purchase history is read first; a user without
  history then runs into the server's rejection of the \<^verbatim>\<open>$limit\<close> stage, which is
  not an \<open>InvalidArgument\<close>; a user with history whose product ids are well-formed
  gets the empty list, as a successful result, which the handler reports as
  "no recommendation available".
\<close>

theorem nonpositive_limit_not_validated:
  assumes "ObjectId_is_valid uid" and "limit \<le> 0"
      and "get_user_purchases st uid = Inr ups"
  shows "get_recommendations_for_user st uid limit =
           (if ups = [] then Inl OperationFailure
            else if list_all (\<lambda>u. ObjectId_is_valid (product_id u)) ups then Inr []
            else Inl InvalidId)
       \<and> handle_get_user_recommendations st uid (Some limit) =
           (if ups = [] then Uncaught OperationFailure
            else if list_all (\<lambda>u. ObjectId_is_valid (product_id u)) ups
                 then Nenhuma_recomendacao
            else Uncaught InvalidId)"
proof -
  note r = nonpositive_limit_result [OF assms]
  have h: "handle_get_user_recommendations st uid (Some limit) =
      (case get_recommendations_for_user st uid limit of
         Inl e \<Rightarrow> if is_ValueError e then Erro e else Uncaught e
       | Inr recommendations \<Rightarrow>
           if recommendations = [] then Nenhuma_recomendacao
           else Recomendacoes recommendations)"
    by (simp add: handle_get_user_recommendations_def)
  show ?thesis unfolding h r by (simp add: is_ValueError_def)
qed

section \<open>Sub-limits\<close>

text \<open>
  From a limit of 3 on, every cursor limit the strategies compute is positive, and each
  strategy fetches at most its sub-limit.
\<close>

lemma sublimits_hold_from_three:
  assumes "3 \<le> limit"
      and s1: "strategy_category st prefs ids limit = Inr p1"
      and s2: "strategy_piece_type st prefs ids limit p1 = Inr p2"
      and s3: "strategy_price st prefs ids limit (p1 @ p2) = Inr p3"
  shows "int (length p1) \<le> limit div 3
       \<and> int (length p2) \<le> (limit - int (length p1)) div 2
       \<and> int (length p3) \<le> limit - int (length (p1 @ p2))"
proof -
  have l1: "int (length p1) \<le> limit div 3"
    using strategy_category_cases [OF s1]
  proof
    assume "p1 = []"
    then show ?thesis using assms(1) by simp
  next
    assume f: "find_candidates st (\<lambda>p. category p = preferred_category prefs) ids (limit div 3)
                 = Inr p1"
    have nz: "limit div 3 \<noteq> 0" using assms(1) by presburger
    from find_candidates_length [OF f nz] show ?thesis using assms(1) by simp
  qed
  have l2: "int (length p2) \<le> (limit - int (length p1)) div 2"
    using strategy_piece_type_cases [OF s2]
  proof
    assume "p2 = []"
    then show ?thesis using l1 assms(1) by simp
  next
    assume "int (length p1) < limit \<and>
      find_candidates st (\<lambda>p. piece_type p = preferred_piece_type prefs) ids
        ((limit - int (length p1)) div 2) = Inr p2"
    then have f: "find_candidates st (\<lambda>p. piece_type p = preferred_piece_type prefs) ids
        ((limit - int (length p1)) div 2) = Inr p2" by simp
    have "2 \<le> limit - int (length p1)" using l1 assms(1) by presburger
    then have pos: "0 < (limit - int (length p1)) div 2" by presburger
    then have nz: "(limit - int (length p1)) div 2 \<noteq> 0" by simp
    from find_candidates_length [OF f nz] pos show ?thesis by simp
  qed
  have l3: "int (length p3) \<le> limit - int (length (p1 @ p2))"
    using strategy_price_cases [OF s3]
  proof
    assume "p3 = []"
    then show ?thesis using l1 l2 assms(1) by simp
  next
    assume a: "int (length (p1 @ p2)) < limit \<and>
      find_candidates st
        (\<lambda>p. average_price prefs - average_price prefs * (3 / 10) \<le> price p
            \<and> price p \<le> average_price prefs + average_price prefs * (3 / 10)) ids
        (limit - int (length (p1 @ p2))) = Inr p3"
    then have nz: "limit - int (length (p1 @ p2)) \<noteq> 0" by simp
    from a find_candidates_length [OF _ nz] have
      "int (length p3) \<le> \<bar>limit - int (length (p1 @ p2))\<bar>" by blast
    with a show ?thesis by simp
  qed
  from l1 l2 l3 show ?thesis by simp
qed

lemma ana_category_2:
  "strategy_category shop ana_prefs (map product_id ana_purchases) 2
     = Inr [prod_c, prod_e, prod_f]"
  unfolding strategy_category_def find_candidates_def ana_object_ids
  by (simp add: truthy_def cursor_limit_def sample_defs)

text \<open>
  Claim C4 at the limit 2. The sub-limit of the category strategy is \<open>2 div 3 = 0\<close>, and
  a cursor limit of 0 is no limit: for Ana the strategy fetches all three eligible
  products of her preferred category, more than the sub-limit allows.
\<close>

theorem category_sublimit_exceeded:
  "get_user_purchases shop uid_ana = Inr ana_purchases
   \<and> analyze_user_preferences shop ana_purchases = Inr ana_prefs
   \<and> strategy_category shop ana_prefs (map product_id ana_purchases) 2
        = Inr [prod_c, prod_e, prod_f]
   \<and> (2::int) div 3 < int (length [prod_c, prod_e, prod_f])"
  using ana_history ana_profile ana_category_2 by simp

lemma ghost_valid: "ObjectId_is_valid uid_ghost"
  by (simp add: sample_defs driver_defs)

lemma ghost_no_purchases:
  "filter (\<lambda>u. user_id u = uid_ghost) (purchases_collection shop) = []"
  by (simp add: sample_defs)

lemma ghost_history: "get_user_purchases shop uid_ghost = Inr []"
  by (simp add: get_user_purchases_def sample_defs driver_defs)

text \<open>
  Claim C1 at an id that is well-formed and not registered: the call returns the three
  most bought products.
\<close>

theorem unknown_user_counterexample:
  "ObjectId_is_valid uid_ghost \<and> uid_ghost \<notin> set (users_collection shop)
   \<and> get_recommendations_for_user shop uid_ghost 5
       = Inr [serialize_document prod_a, serialize_document prod_b, serialize_document prod_d]
   \<and> handle_get_user_recommendations shop uid_ghost (Some 5)
       = Recomendacoes
           [serialize_document prod_a, serialize_document prod_b, serialize_document prod_d]"
proof -
  have "uid_ghost \<notin> set (users_collection shop)" by (simp add: sample_defs)
  moreover have "get_recommendations_for_user shop uid_ghost 5 = get_popular_products shop 5"
    by (rule no_history_result [OF ghost_history])
  ultimately show ?thesis
    using ghost_valid shop_popular_5 by (simp add: handle_get_user_recommendations_def)
qed

theorem unknown_user_gets_fallback_witness:
  "ObjectId_is_valid uid_ghost
   \<and> filter (\<lambda>u. user_id u = uid_ghost) (purchases_collection shop) = []
   \<and> get_recommendations_for_user shop uid_ghost 5 = get_popular_products shop 5
   \<and> get_recommendations_for_user shop uid_ghost 5 \<noteq> Inl NotFound
   \<and> get_recommendations_for_user (shop\<lparr>users_collection := uid_ghost # users_collection shop\<rparr>)
        uid_ghost 5
       = get_recommendations_for_user shop uid_ghost 5"
proof -
  note t = unknown_user_gets_fallback [of shop uid_ghost 5
      "uid_ghost # users_collection shop"]
  have h: "ObjectId_is_valid uid_ghost
      \<and> filter (\<lambda>u. user_id u = uid_ghost) (purchases_collection shop) = []"
    by (intro conjI ghost_valid ghost_no_purchases)
  show ?thesis
    by (intro conjI ghost_valid ghost_no_purchases
          t [THEN conjunct2, THEN conjunct2, THEN mp, OF h]
          t [THEN conjunct1] t [THEN conjunct2, THEN conjunct1])
qed

section \<open>The fallback on the sample store\<close>

lemma ana_valid: "ObjectId_is_valid uid_ana"
  by (simp add: sample_defs driver_defs)

lemma bia_valid: "ObjectId_is_valid uid_bia"
  by (simp add: sample_defs driver_defs)

lemma ana_category_neg:
  "strategy_category shop ana_prefs (map product_id ana_purchases) (- 1) = Inr [prod_c]"
  unfolding strategy_category_def find_candidates_def ana_object_ids
  by (simp add: truthy_def cursor_limit_def sample_defs)

lemma ana_candidates_neg:
  "generate_candidates shop ana_prefs ana_purchases (- 1) = Inr [prod_c]"
  unfolding generate_candidates_def Let_def ana_category_neg sum.case
  by (simp add: strategy_piece_type_def strategy_price_def)

lemma ana_recommendations_neg: "get_recommendations_for_user shop uid_ana (- 1) = Inr []"
proof -
  have "get_recommendations_for_user shop uid_ana (- 1)
        = get_recommendations_by_preferences shop ana_prefs ana_purchases (- 1)"
    by (simp add: get_recommendations_for_user_def ana_valid ana_history ana_nonempty ana_profile)
  also have "\<dots> = Inr (py_slice_to (- 1) (sort_by_score [scored ana_prefs prod_c]))"
    unfolding get_recommendations_by_preferences_def ana_candidates_neg sum.case
    by simp
  finally show ?thesis by (simp add: py_slice_to_def sort_by_score_def)
qed

text \<open>Claim C2 at Ana and the limit -1: the call succeeds with the empty list.\<close>

theorem nonpositive_limit_counterexample:
  "ObjectId_is_valid uid_ana \<and> (- 1 :: int) \<le> 0
   \<and> get_recommendations_for_user shop uid_ana (- 1) = Inr []
   \<and> get_recommendations_for_user shop uid_ana (- 1) \<noteq> Inl InvalidArgument
   \<and> handle_get_user_recommendations shop uid_ana (Some (- 1)) = Nenhuma_recomendacao"
  using ana_valid ana_recommendations_neg
  by (simp add: handle_get_user_recommendations_def)

lemma ana_purchases_valid: "list_all (\<lambda>u. ObjectId_is_valid (product_id u)) ana_purchases"
  by (simp add: sample_defs driver_defs)

theorem nonpositive_limit_not_validated_witness:
  "ObjectId_is_valid uid_ana \<and> (- 1 :: int) \<le> 0
   \<and> get_user_purchases shop uid_ana = Inr ana_purchases
   \<and> get_recommendations_for_user shop uid_ana (- 1) = Inr []
   \<and> ObjectId_is_valid uid_bia \<and> (0 :: int) \<le> 0
   \<and> get_user_purchases shop uid_bia = Inr []
   \<and> get_recommendations_for_user shop uid_bia 0 = Inl OperationFailure"
proof -
  have n1: "(- 1 :: int) \<le> 0" and n0: "(0 :: int) \<le> 0" by simp_all
  have a: "get_recommendations_for_user shop uid_ana (- 1) = Inr []"
    using nonpositive_limit_not_validated [OF ana_valid n1 ana_history, THEN conjunct1]
    by (simp add: ana_nonempty ana_purchases_valid)
  have b: "get_recommendations_for_user shop uid_bia 0 = Inl OperationFailure"
    using nonpositive_limit_not_validated [OF bia_valid n0 bia_history, THEN conjunct1]
    by simp
  show ?thesis
    by (intro conjI ana_valid n1 ana_history a bia_valid n0 bia_history b)
qed

lemma shop_nonempty: "purchases_collection shop \<noteq> []"
  by (simp add: shop_def)

lemma shop_purchases_valid:
  "list_all (\<lambda>u. ObjectId_is_valid (product_id u)) (purchases_collection shop)"
  by (simp add: sample_defs driver_defs)

lemma bia_recommendations_3:
  "get_recommendations_for_user shop uid_bia 3
     = Inr [serialize_document prod_a, serialize_document prod_d]"
  by (simp add: no_history_result [OF bia_history] shop_popular_3)

text \<open>
  Claim C3 at Bia and the limit 3: the T-shirt, bought twice, comes before the shirt,
  bought five times.
\<close>

theorem popular_order_counterexample:
  "get_user_purchases shop uid_bia = Inr [] \<and> purchases_collection shop \<noteq> []
   \<and> get_recommendations_for_user shop uid_bia 3
       = Inr [serialize_document prod_a, serialize_document prod_d]
   \<and> spec_total_quantity (purchases_collection shop) (p_id prod_a) = 2
   \<and> spec_total_quantity (purchases_collection shop) (p_id prod_d) = 5"
proof -
  have "spec_total_quantity (purchases_collection shop) (p_id prod_a) = 2"
    by (simp add: spec_total_quantity_def sample_defs)
  moreover have "spec_total_quantity (purchases_collection shop) (p_id prod_d) = 5"
    by (simp add: spec_total_quantity_def sample_defs)
  ultimately show ?thesis
    using bia_history shop_nonempty bia_recommendations_3 by simp
qed

theorem popular_fallback_products_witness:
  "get_user_purchases shop uid_bia = Inr [] \<and> purchases_collection shop \<noteq> [] \<and> (0::int) < 3
   \<and> list_all (\<lambda>u. ObjectId_is_valid (product_id u)) (purchases_collection shop)
   \<and> (\<exists>top rs. get_recommendations_for_user shop uid_bia 3 = Inr rs
        \<and> mset rs = image_mset serialize_document
                      (filter_mset (\<lambda>p. p_id p \<in> set (map (map hex_lower) top))
                         (mset (products_collection shop)))
        \<and> distinct top \<and> length top = 3)"
proof -
  have pos: "(0::int) < 3" by simp
  have c: "card (product_id ` set (purchases_collection shop)) = 4"
    by (simp add: sample_defs)
  from popular_fallback_products [OF bia_history shop_nonempty pos shop_purchases_valid]
  obtain top rs where
    r: "get_recommendations_for_user shop uid_bia 3 = Inr rs"
    and m: "mset rs = image_mset serialize_document
                      (filter_mset (\<lambda>p. p_id p \<in> set (map (map hex_lower) top))
                         (mset (products_collection shop)))"
    and d: "distinct top"
    and l: "length top = min (nat 3) (card (product_id ` set (purchases_collection shop)))"
    by blast
  from l have l3: "length top = 3" unfolding c by simp
  have "\<exists>top rs. get_recommendations_for_user shop uid_bia 3 = Inr rs
        \<and> mset rs = image_mset serialize_document
                      (filter_mset (\<lambda>p. p_id p \<in> set (map (map hex_lower) top))
                         (mset (products_collection shop)))
        \<and> distinct top \<and> length top = 3"
    by (intro exI [of _ top] exI [of _ rs] conjI r m d l3)
  then show ?thesis
    by (intro conjI bia_history shop_nonempty pos shop_purchases_valid)
qed

text \<open>
  Claim C10. On the popularity fallback no stock filter is applied: there is a store, a
  user without purchase history and a limit for which a returned product has the stock
  quantity 0.
\<close>

theorem popular_fallback_ignores_stock:
  "\<exists>st uid limit rs r.
      get_user_purchases st uid = Inr [] \<and> purchases_collection st \<noteq> []
    \<and> get_recommendations_for_user st uid limit = Inr rs
    \<and> r \<in> set rs \<and> stock_quantity (rec_product r) = 0"
proof -
  have r: "get_recommendations_for_user shop uid_bia 1 = Inr [serialize_document prod_d]"
    by (simp add: no_history_result [OF bia_history] shop_popular_1)
  have m: "serialize_document prod_d \<in> set [serialize_document prod_d]" by simp
  have z: "stock_quantity (rec_product (serialize_document prod_d)) = 0"
    by (simp add: serialize_document_def prod_d_def)
  from bia_history shop_nonempty r m z show ?thesis by blast
qed

lemma ana_category_1:
  "strategy_category shop ana_prefs (map product_id ana_purchases) 1
     = Inr [prod_c, prod_e, prod_f]"
  unfolding strategy_category_def find_candidates_def ana_object_ids
  by (simp add: truthy_def cursor_limit_def sample_defs)

lemma ana_candidates_1:
  "generate_candidates shop ana_prefs ana_purchases 1 = Inr [prod_c, prod_e, prod_f]"
  unfolding generate_candidates_def Let_def ana_category_1 sum.case
  by (simp add: strategy_piece_type_def strategy_price_def)

lemma ana_unique_1:
  "unique_loop ana_prefs [prod_c, prod_e, prod_f] [] {}
     = [scored ana_prefs prod_c, scored ana_prefs prod_e, scored ana_prefs prod_f]"
  by (simp add: prod_c_def prod_e_def prod_f_def)

lemma ana_score_e: "score_key (scored ana_prefs prod_e) = 3"
  by (simp add: score_key_def scored_def calculate_recommendation_score_def sample_defs)

lemma ana_recommendations_1:
  "get_recommendations_for_user shop uid_ana 1 = Inr [scored ana_prefs prod_f]"
proof -
  have "get_recommendations_for_user shop uid_ana 1
        = get_recommendations_by_preferences shop ana_prefs ana_purchases 1"
    by (simp add: get_recommendations_for_user_def ana_valid ana_history ana_nonempty ana_profile)
  also have "\<dots> = Inr (py_slice_to 1 (sort_by_score
       [scored ana_prefs prod_c, scored ana_prefs prod_e, scored ana_prefs prod_f]))"
    unfolding get_recommendations_by_preferences_def ana_candidates_1 sum.case ana_unique_1
    by (rule refl)
  also have "sort_by_score [scored ana_prefs prod_c, scored ana_prefs prod_e, scored ana_prefs prod_f]
       = [scored ana_prefs prod_f, scored ana_prefs prod_c, scored ana_prefs prod_e]"
    by (simp add: sort_by_score_def ana_scores ana_score_e)
  finally show ?thesis by (simp add: py_slice_to_def)
qed

lemma bia_recommendations_1:
  "get_recommendations_for_user shop uid_bia 1 = Inr [serialize_document prod_d]"
  by (simp add: no_history_result [OF bia_history] shop_popular_1)

lemma cold_bia_history: "get_user_purchases cold_shop uid_bia = Inr []"
  by (simp add: get_user_purchases_def cold_shop_def sample_defs driver_defs)

lemma cold_bia_recommendations_2:
  "get_recommendations_for_user cold_shop uid_bia 2
     = Inr [serialize_document prod_a, serialize_document prod_b]"
  by (simp add: no_history_result [OF cold_bia_history] cold_popular_2)

lemma cold_distinct: "distinct (map p_id (products_collection cold_shop))"
  by (simp add: cold_shop_def sample_defs)

theorem limit_respected_witness:
  "get_recommendations_for_user shop uid_ana 1 = Inr [scored ana_prefs prod_f]
   \<and> get_recommendations_for_user shop uid_bia 1 = Inr [serialize_document prod_d]
   \<and> get_recommendations_for_user cold_shop uid_bia 2
       = Inr [serialize_document prod_a, serialize_document prod_b]
   \<and> (0::int) < 1 \<and> (0::int) < 2
   \<and> distinct (map p_id (products_collection shop))
   \<and> distinct (map p_id (products_collection cold_shop))
   \<and> int (length [scored ana_prefs prod_f]) \<le> 1
   \<and> int (length [serialize_document prod_d]) \<le> 1
   \<and> int (length [serialize_document prod_a, serialize_document prod_b]) \<le> 2"
proof -
  have p1: "(0::int) < 1" and p2: "(0::int) < 2" by simp_all
  show ?thesis
    by (intro conjI ana_recommendations_1 bia_recommendations_1 cold_bia_recommendations_2
          p1 p2 shop_distinct cold_distinct
          limit_respected [OF ana_recommendations_1 p1 shop_distinct]
          limit_respected [OF bia_recommendations_1 p1 shop_distinct]
          limit_respected [OF cold_bia_recommendations_2 p2 cold_distinct])
qed

end
